theory Spec2Isabelle
  imports Main "HOL-Library.Word"
begin

chapter \<open>The model\<close>

section \<open>JavaScript strings and numbers\<close>

text \<open>
  A JavaScript string is a sequence of 16-bit code units. \<open>String.fromCharCode\<close> reduces its
  argument modulo \<open>2^16\<close>, which is what \<open>word_of_int\<close> does on \<open>16 word\<close>.
  The indices that \<open>forEach\<close> counts and the code units that \<open>charCodeAt\<close> returns are
  small integers, modelled by \<open>nat\<close> and \<open>int\<close>; \<open>number_toString\<close>, the conversion of a
  template literal, is the decimal rendering, which is what JavaScript prints for an
  integer of magnitude up to \<open>2^54\<close>. The value \<open>NaN\<close> of \<open>charCodeAt\<close> is \<open>None\<close>. The row
  numbers of the range lookup, which come from \<open>parseInt\<close>, are doubles and are modelled
  further down. \<open>js\<close> turns a literal of the
  theory into a JavaScript string. \<open>trim\<close> removes the white space and line terminators of
  ECMAScript at both ends; \<open>slice\<close>, \<open>startsWith\<close>, \<open>endsWith\<close> and \<open>includes\<close> are the
  methods of \<open>String.prototype\<close>; \<open>parseInt\<close>, further down, is the global function called
  with one argument.
\<close>

type_synonym code_unit = "16 word"
type_synonym jstring = "code_unit list"

definition js :: "string \<Rightarrow> jstring" where
  "js s = map (\<lambda>c. of_nat (of_char c)) s"

definition fromCharCode :: "int \<Rightarrow> jstring" where
  "fromCharCode n = [word_of_int n]"

definition charCodeAt0 :: "jstring \<Rightarrow> int option" where
  "charCodeAt0 s = (case s of [] \<Rightarrow> None | c # _ \<Rightarrow> Some (uint c))"

fun nat_digits :: "nat \<Rightarrow> jstring" where
  "nat_digits n =
     (if n < 10 then [of_nat (48 + n)]
      else nat_digits (n div 10) @ [of_nat (48 + n mod 10)])"

definition number_toString :: "int \<Rightarrow> jstring" where
  "number_toString n = (if n < 0 then 45 # nat_digits (nat (- n)) else nat_digits (nat n))"

definition is_whitespace :: "code_unit \<Rightarrow> bool" where
  "is_whitespace c \<longleftrightarrow>
     c \<in> {0x9, 0xA, 0xB, 0xC, 0xD, 0x20, 0xA0, 0x1680, 0x2028, 0x2029, 0x202F, 0x205F,
          0x3000, 0xFEFF} \<or> (0x2000 \<le> c \<and> c \<le> 0x200A)"

definition trim :: "jstring \<Rightarrow> jstring" where
  "trim s = rev (dropWhile is_whitespace (rev (dropWhile is_whitespace s)))"

definition slice :: "jstring \<Rightarrow> int \<Rightarrow> int \<Rightarrow> jstring" where
  "slice s start end' =
     (let len = int (length s);
          from = (if start < 0 then max (len + start) 0 else min start len);
          to = (if end' < 0 then max (len + end') 0 else min end' len)
      in take (nat (to - from)) (drop (nat from) s))"

definition startsWith :: "jstring \<Rightarrow> jstring \<Rightarrow> bool" where
  "startsWith s p \<longleftrightarrow> take (length p) s = p"

definition endsWith :: "jstring \<Rightarrow> jstring \<Rightarrow> bool" where
  "endsWith s p \<longleftrightarrow> length p \<le> length s \<and> drop (length s - length p) s = p"

fun includes_js :: "jstring \<Rightarrow> jstring \<Rightarrow> bool" where
  "includes_js [] p = (p = [])"
| "includes_js (c # cs) p = (startsWith (c # cs) p \<or> includes_js cs p)"

section \<open>The table indexer\<close>

text \<open>
  \<open>parseTables\<close> reads the document through the browser's \<open>DOMParser\<close>. The parser
  is outside the repository; the model receives its result: the tables of
  \<open>querySelectorAll("table")\<close> in document order, each as the rows of
  \<open>querySelectorAll("tr")\<close>, each row as the \<open>textContent\<close> of the cells of
  \<open>querySelectorAll("td, th")\<close>. Property lookup on the objects that hold the index is
  a finite map; the inherited properties of \<open>Object.prototype\<close> are not modelled (no
  table name \<open>table<N>\<close> and no cell reference names one).
\<close>

text \<open>
  \<^verbatim>\<open>function columnIndexToLetter(index) { return String.fromCharCode(65 + index); }\<close>

  \<^verbatim>\<open>tables.forEach((table, tableIndex) => {\<close>
  \<^verbatim>\<open>  const tableName = `table${tableIndex + 1}`;\<close>
  \<^verbatim>\<open>  tableData[tableName] = {};\<close>
  \<^verbatim>\<open>  rows.forEach((row, rowIndex) => {\<close>
  \<^verbatim>\<open>    cells.forEach((cell, cellIndex) => {\<close>
  \<^verbatim>\<open>      const cellRef = `${columnIndexToLetter(cellIndex)}${rowIndex + 1}`;\<close>
  \<^verbatim>\<open>      tableData[tableName][cellRef] = cell.textContent?.trim() || "";\<close>
  \<^verbatim>\<open>return { content, tableData };\<close>

  Each \<open>forEach\<close> is a fold over the elements with their indices. The cells of a table
  are written into the object of that table only, so the model builds the object of a
  table and then stores it under the table's name.
\<close>

type_synonym dom_table = "jstring list list"
type_synonym table_data = "jstring \<rightharpoonup> (jstring \<rightharpoonup> jstring)"

definition columnIndexToLetter :: "int \<Rightarrow> jstring" where
  "columnIndexToLetter index = fromCharCode (65 + index)"

definition parseTables_cells ::
  "nat \<Rightarrow> jstring list \<Rightarrow> (jstring \<rightharpoonup> jstring) \<Rightarrow> (jstring \<rightharpoonup> jstring)" where
  "parseTables_cells rowIndex cells tbl =
     fold (\<lambda>(cellIndex, textContent) t.
             t(columnIndexToLetter (int cellIndex) @ number_toString (int rowIndex + 1) \<mapsto>
                 (if trim textContent = [] then [] else trim textContent)))
          (enumerate 0 cells) tbl"

definition parseTables_rows :: "dom_table \<Rightarrow> (jstring \<rightharpoonup> jstring)" where
  "parseTables_rows rows =
     fold (\<lambda>(rowIndex, row) t. parseTables_cells rowIndex row t) (enumerate 0 rows) Map.empty"

definition parseTables :: "(jstring \<Rightarrow> dom_table list) \<Rightarrow> jstring \<Rightarrow> jstring \<times> table_data" where
  "parseTables querySelectorAll content =
     (content,
      fold (\<lambda>(tableIndex, table) tableData.
              tableData(js ''table'' @ number_toString (int tableIndex + 1) \<mapsto>
                          parseTables_rows table))
           (enumerate 0 (querySelectorAll content)) Map.empty)"

section \<open>External collaborators\<close>

text \<open>
  The functions below belong to the browser, to \<open>mathjs\<close> and to \<open>katex\<close>, not to the
  repository. The model takes them as parameters and fixes nothing about what they
  compute. \<open>'n\<close> is the type of JavaScript numbers as \<open>Number\<close> parses them from cell
  text (floating point, so left abstract), \<open>'v\<close> the type of the values that
  \<open>math.evaluate\<close> returns. A call that throws returns \<open>Inl\<close>. The second argument of
  \<open>math_evaluate\<close> is the range lookup of the scope, if the call has a scope; the lookup
  is the repository's and may not return (\<open>None\<close>). The model takes every call of a
  collaborator to have an outcome, a value or a throw. A call of \<open>math.evaluate\<close> during
  which the lookup does not return has none; what \<open>math_evaluate\<close> gives for it stands for
  nothing in the program.
\<close>

datatype error_class = Error | ReferenceError | SyntaxError | TypeError | RangeError

datatype js_error = Throw error_class jstring

record ('n, 'v) externals =
  dom_tables :: "jstring \<Rightarrow> dom_table list"
  js_Number :: "jstring \<Rightarrow> 'n"
  js_isNaN :: "'n \<Rightarrow> bool"
  math_evaluate ::
    "jstring \<Rightarrow> (jstring \<Rightarrow> jstring \<Rightarrow> jstring \<Rightarrow> (js_error + 'n list) option) option \<Rightarrow>
       js_error + 'v"
  typeof_number :: "'v \<Rightarrow> bool"
  math_round :: "'v \<Rightarrow> js_error + 'v"
  value_toString :: "'v \<Rightarrow> js_error + jstring"
  katex_renderToString :: "jstring \<Rightarrow> bool \<Rightarrow> js_error + jstring"

section \<open>The range lookup\<close>

text \<open>
  The row numbers of \<open>getRange\<close> are JavaScript numbers, that is doubles. The ones met here
  have integer values: every integer of magnitude up to \<open>2^53\<close> is a double, and a larger
  one is a double when it has at most 53 significant bits. \<open>round_double\<close> is the rounding
  that \<open>parseInt\<close> and every arithmetic operation apply to their exact result: to the
  nearest double, a tie to the one with the even significand. A result that rounds to
  \<open>2^1024\<close> or more is an infinity. A \<open>jsnum\<close> is what a row bound can be.
\<close>

fun bit_length :: "nat \<Rightarrow> nat" where
  "bit_length n = (if n = 0 then 0 else Suc (bit_length (n div 2)))"

declare bit_length.simps [simp del]

definition round_double :: "int \<Rightarrow> int" where
  "round_double x =
     (if \<bar>x\<bar> \<le> 2 ^ 53 then x
      else
        (let e = bit_length (nat \<bar>x\<bar>) - 53;
             q = \<bar>x\<bar> div 2 ^ e;
             r = \<bar>x\<bar> mod 2 ^ e;
             q' = (if 2 ^ e < 2 * r \<or> (2 * r = 2 ^ e \<and> odd q) then q + 1 else q)
         in sgn x * (q' * 2 ^ e)))"

datatype jsnum = NaN | Finite int | PosInfinity | NegInfinity

definition to_number :: "int \<Rightarrow> jsnum" where
  "to_number v =
     (if 2 ^ 1024 \<le> round_double v then PosInfinity
      else if round_double v \<le> - (2 ^ 1024) then NegInfinity
      else Finite (round_double v))"

text \<open>
  \<open>num_add n k\<close> is \<open>n + k\<close> for an integer \<open>k\<close>, \<open>num_le\<close> is \<open><=\<close>, which is false when a
  side is \<open>NaN\<close>, and \<open>num_toString\<close> is the conversion of a template literal. The digits
  that JavaScript prints for an integer are its decimal rendering up to the magnitude
  \<open>2^54\<close>; the lookup prints a larger row number only in a loop that has stopped
  advancing.
\<close>

definition num_add :: "jsnum \<Rightarrow> int \<Rightarrow> jsnum" where
  "num_add n k = (case n of Finite i \<Rightarrow> to_number (i + k) | _ \<Rightarrow> n)"

definition num_le :: "jsnum \<Rightarrow> jsnum \<Rightarrow> bool" where
  "num_le a b =
     (case (a, b) of
        (NaN, _) \<Rightarrow> False
      | (_, NaN) \<Rightarrow> False
      | (Finite i, Finite j) \<Rightarrow> i \<le> j
      | (NegInfinity, _) \<Rightarrow> True
      | (_, PosInfinity) \<Rightarrow> True
      | _ \<Rightarrow> False)"

definition num_toString :: "jsnum \<Rightarrow> jstring" where
  "num_toString n =
     (case n of
        NaN \<Rightarrow> js ''NaN''
      | Finite i \<Rightarrow> number_toString i
      | PosInfinity \<Rightarrow> js ''Infinity''
      | NegInfinity \<Rightarrow> js ''-Infinity'')"

text \<open>
  \<^verbatim>\<open>const table = tableData[tableName];\<close>
  \<^verbatim>\<open>if (!table) { throw new Error(`Table "${tableName}" not found.`); }\<close>
  \<^verbatim>\<open>const startCol = startCell.charCodeAt(0) - 65;\<close>
  \<^verbatim>\<open>const endCol = endCell.charCodeAt(0) - 65;\<close>
  \<^verbatim>\<open>const startRow = parseInt(startCell.slice(1)) - 1;\<close>
  \<^verbatim>\<open>const endRow = parseInt(endCell.slice(1)) - 1;\<close>
  \<^verbatim>\<open>for (let col = startCol; col <= endCol; col++) {\<close>
  \<^verbatim>\<open>  for (let row = startRow; row <= endRow; row++) {\<close>
  \<^verbatim>\<open>    const cellRef = `${String.fromCharCode(col + 65)}${row + 1}`;\<close>
  \<^verbatim>\<open>    const cellValue = table[cellRef];\<close>
  \<^verbatim>\<open>    if (cellValue !== undefined && !isNaN(Number(cellValue))) {\<close>
  \<^verbatim>\<open>      values.push(Number(cellValue));\<close>
  \<^verbatim>\<open>return values;\<close>

  The two loops are \<open>getRange_cols\<close> and \<open>getRange_rows\<close>; \<open>values\<close> is their accumulator.
  \<open>parseInt_value\<close> is the integer that \<open>parseInt\<close> reads (white space skipped, a sign, a
  prefix \<open>0x\<close>, the longest run of digits), \<open>parseInt\<close> the number it returns. The column
  numbers come from one code unit and stay below \<open>2^16\<close>, so they are exact integers
  (\<open>None\<close> is \<open>NaN\<close>, for a cell reference that is empty). The inner loop can run forever,
  when \<open>row++\<close> meets a double whose successor rounds back to it: a run that does not
  return has the value \<open>None\<close>.
\<close>

definition digit_value :: "code_unit \<Rightarrow> int" where
  "digit_value c =
     (if 48 \<le> c \<and> c \<le> 57 then uint c - 48
      else if 97 \<le> c \<and> c \<le> 122 then uint c - 87
      else if 65 \<le> c \<and> c \<le> 90 then uint c - 55
      else 36)"

definition parseInt_value :: "jstring \<Rightarrow> int option" where
  "parseInt_value string =
     (let S = dropWhile is_whitespace string;
          sign = (if S \<noteq> [] \<and> hd S = 45 then - 1 else 1);
          S' = (if S \<noteq> [] \<and> (hd S = 43 \<or> hd S = 45) then tl S else S);
          hex = (2 \<le> length S' \<and> S' ! 0 = 48 \<and> (S' ! 1 = 120 \<or> S' ! 1 = 88));
          R = (if hex then 16 else 10);
          S'' = (if hex then drop 2 S' else S');
          Z = takeWhile (\<lambda>c. digit_value c < R) S''
      in if Z = [] then None
         else Some (sign * foldl (\<lambda>a c. a * R + digit_value c) 0 Z))"

definition parseInt :: "jstring \<Rightarrow> jsnum" where
  "parseInt string = (case parseInt_value string of None \<Rightarrow> NaN | Some v \<Rightarrow> to_number v)"

partial_function (option) getRange_rows ::
  "('n, 'v) externals \<Rightarrow> (jstring \<rightharpoonup> jstring) \<Rightarrow> int \<Rightarrow> jsnum \<Rightarrow> jsnum \<Rightarrow> 'n list \<Rightarrow>
     'n list option" where
  "getRange_rows ext table col row endRow values =
     (if num_le row endRow then
        getRange_rows ext table col (num_add row 1) endRow
          (case table (fromCharCode (col + 65) @ num_toString (num_add row 1)) of
             None \<Rightarrow> values
           | Some cellValue \<Rightarrow>
               if \<not> js_isNaN ext (js_Number ext cellValue)
               then values @ [js_Number ext cellValue]
               else values)
      else Some values)"

function getRange_cols ::
  "('n, 'v) externals \<Rightarrow> (jstring \<rightharpoonup> jstring) \<Rightarrow> int \<Rightarrow> int \<Rightarrow> jsnum \<Rightarrow> jsnum \<Rightarrow> 'n list \<Rightarrow>
     'n list option" where
  "getRange_cols ext table col endCol startRow endRow values =
     (if col \<le> endCol then
        (case getRange_rows ext table col startRow endRow values of
           None \<Rightarrow> None
         | Some values' \<Rightarrow> getRange_cols ext table (col + 1) endCol startRow endRow values')
      else Some values)"
  by pat_completeness auto
termination
  by (relation "measure (\<lambda>(ext, table, col, endCol, startRow, endRow, values). nat (endCol + 1 - col))")
     auto

declare getRange_cols.simps [simp del]

definition getRange ::
  "('n, 'v) externals \<Rightarrow> jstring \<Rightarrow> jstring \<Rightarrow> jstring \<Rightarrow> table_data \<Rightarrow>
     (js_error + 'n list) option" where
  "getRange ext tableName startCell endCell tableData =
     (case tableData tableName of
        None \<Rightarrow> Some (Inl (Throw Error (js ''Table \"'' @ tableName @ js ''\" not found.'')))
      | Some table \<Rightarrow>
          (let startCol = map_option (\<lambda>c. c - 65) (charCodeAt0 startCell);
               endCol = map_option (\<lambda>c. c - 65) (charCodeAt0 endCell);
               startRow = num_add (parseInt (slice startCell 1 (int (length startCell)))) (- 1);
               endRow = num_add (parseInt (slice endCell 1 (int (length endCell)))) (- 1)
           in case (startCol, endCol) of
                (Some startCol, Some endCol) \<Rightarrow>
                  map_option Inr (getRange_cols ext table startCol endCol startRow endRow [])
              | _ \<Rightarrow> Some (Inr [])))"

text \<open>
  The rectangle of a range in the words of the specification, with the row numbers as
  they are written: the columns from the start column to the end column, in each column
  the rows from the start row to the end row, and of each cell the number it parses to,
  if it exists and parses to one.
\<close>

definition numeric_cell ::
  "('n, 'v) externals \<Rightarrow> (jstring \<rightharpoonup> jstring) \<Rightarrow> int \<Rightarrow> int \<Rightarrow> 'n list" where
  "numeric_cell ext table col row =
     (case table (fromCharCode (col + 65) @ number_toString (row + 1)) of
        None \<Rightarrow> []
      | Some v \<Rightarrow> if js_isNaN ext (js_Number ext v) then [] else [js_Number ext v])"

definition column_major ::
  "('n, 'v) externals \<Rightarrow> (jstring \<rightharpoonup> jstring) \<Rightarrow> int \<Rightarrow> int \<Rightarrow> int \<Rightarrow> int \<Rightarrow> 'n list" where
  "column_major ext table startCol endCol startRow endRow =
     concat (map (\<lambda>col. concat (map (\<lambda>row. numeric_cell ext table col row) [startRow..endRow]))
                 [startCol..endCol])"

section \<open>The expression evaluator\<close>

text \<open>
  \<open>processTableExpression\<close> replaces every match of
  \<open>/table\d+\[[A-Z]\d+:[A-Z]\d+\]/g\<close>, scanning from the left. \<open>match_tableRef\<close> matches the
  pattern at the head of a string and returns the table name and the two cells, the
  parts that the callback obtains with \<open>split\<close>. Each \<open>\d+\<close> is greedy and is followed
  by a character that is no digit, so the longest run of digits is the only candidate.
\<close>

text \<open>
  \<^verbatim>\<open>return expression.replace(/table\d+\[[A-Z]\d+:[A-Z]\d+\]/g, (match) => {\<close>
  \<^verbatim>\<open>  const [tableName, range] = match.split('[');\<close>
  \<^verbatim>\<open>  const [startCell, endCell] = range.slice(0, -1).split(':');\<close>
  \<^verbatim>\<open>  return `getRange("${tableName}", "${startCell}", "${endCell}")`;\<close>
\<close>

definition is_decimal :: "code_unit \<Rightarrow> bool" where
  "is_decimal c \<longleftrightarrow> 48 \<le> c \<and> c \<le> 57"

definition is_upper :: "code_unit \<Rightarrow> bool" where
  "is_upper c \<longleftrightarrow> 65 \<le> c \<and> c \<le> 90"

definition match_cell :: "jstring \<Rightarrow> (jstring \<times> jstring) option" where
  "match_cell s =
     (case s of
        [] \<Rightarrow> None
      | c # cs \<Rightarrow>
          if is_upper c \<and> takeWhile is_decimal cs \<noteq> []
          then Some (c # takeWhile is_decimal cs, dropWhile is_decimal cs) else None)"

definition match_tableRef :: "jstring \<Rightarrow> (jstring \<times> jstring \<times> jstring) option" where
  "match_tableRef s =
     (if startsWith s (js ''table'') \<and> takeWhile is_decimal (drop 5 s) \<noteq> [] then
        (let tableName = js ''table'' @ takeWhile is_decimal (drop 5 s);
             s1 = dropWhile is_decimal (drop 5 s)
         in if startsWith s1 (js ''['') then
              (case match_cell (drop 1 s1) of
                 None \<Rightarrow> None
               | Some (startCell, s2) \<Rightarrow>
                   if startsWith s2 (js '':'') then
                     (case match_cell (drop 1 s2) of
                        None \<Rightarrow> None
                      | Some (endCell, s3) \<Rightarrow>
                          if startsWith s3 (js '']'') then Some (tableName, startCell, endCell)
                          else None)
                   else None)
            else None)
      else None)"

function processTableExpression :: "jstring \<Rightarrow> table_data \<Rightarrow> jstring" where
  "processTableExpression expression tableData =
     (case expression of
        [] \<Rightarrow> []
      | c # cs \<Rightarrow>
          (case match_tableRef expression of
             Some (tableName, startCell, endCell) \<Rightarrow>
               js ''getRange(\"'' @ tableName @ js ''\", \"'' @ startCell @ js ''\", \"'' @ endCell @
               js ''\")'' @
               processTableExpression
                 (drop (length tableName + length startCell + length endCell + 3) expression)
                 tableData
           | None \<Rightarrow> c # processTableExpression cs tableData))"
  by pat_completeness auto
termination
  by (relation "measure (\<lambda>(expression, tableData). length expression)") auto

declare processTableExpression.simps [simp del]

text \<open>
  The evaluation cache is the module's \<open>expressionCache\<close>. Beside it the state keeps the
  list of the calls made to \<open>katex.renderToString\<close> and \<open>math.evaluate\<close>, in order: the
  source does not hold such a list, it records what the callback asks of its
  collaborators.
\<close>

datatype evaluator_call = KatexRender jstring | MathEvaluate jstring

record eval_state =
  expressionCache :: "jstring \<rightharpoonup> jstring"
  calls :: "evaluator_call list"

definition error_marker :: "jstring \<Rightarrow> jstring" where
  "error_marker expression = js ''<span style=\"color: red;\">'' @ expression @ js ''</span>''"

definition cache_set :: "jstring \<Rightarrow> jstring \<Rightarrow> eval_state \<Rightarrow> eval_state" where
  "cache_set expression result st =
     st\<lparr>expressionCache := (expressionCache st)(expression \<mapsto> result)\<rparr>"

definition called :: "evaluator_call \<Rightarrow> eval_state \<Rightarrow> eval_state" where
  "called c st = st\<lparr>calls := calls st @ [c]\<rparr>"

text \<open>
  \<^verbatim>\<open>if (expressionCache.has(expression)) { return expressionCache.get(expression)!; }\<close>
  \<^verbatim>\<open>try {\<close>
  \<^verbatim>\<open>  if (expression.startsWith("$$") && expression.endsWith("$$")) {\<close>
  \<^verbatim>\<open>    const latexExpression = expression.slice(2, -2).trim();\<close>
  \<^verbatim>\<open>    const result = katex.renderToString(latexExpression, { throwOnError: false });\<close>
  \<^verbatim>\<open>    expressionCache.set(expression, result); return result;\<close>
  \<^verbatim>\<open>  }\<close>
  \<^verbatim>\<open>  if (expression.includes("table")) {\<close>
  \<^verbatim>\<open>    const processedExpression = processTableExpression(expression, tableData);\<close>
  \<^verbatim>\<open>    const result = math.evaluate(processedExpression, { ...math, getRange: ... });\<close>
  \<^verbatim>\<open>    const roundedResult = typeof result === 'number'\<close>
  \<^verbatim>\<open>      ? math.round(result, 3).toString() : result.toString();\<close>
  \<^verbatim>\<open>    expressionCache.set(expression, roundedResult); return roundedResult;\<close>
  \<^verbatim>\<open>  } else {\<close>
  \<^verbatim>\<open>    const result = math.round(math.evaluate(expression), 3).toString();\<close>
  \<^verbatim>\<open>    expressionCache.set(expression, result); return result;\<close>
  \<^verbatim>\<open>  }\<close>
  \<^verbatim>\<open>} catch (error) {\<close>
  \<^verbatim>\<open>  return `<span style="color: red;">${expression}</span>`;\<close>
  \<^verbatim>\<open>}\<close>

  The callback of \<open>content.replace\<close> in \<open>evaluateTableExpressions\<close>. Every \<open>Inl\<close> of a
  collaborator is an exception inside \<open>try\<close>; the \<open>catch\<close> returns the marker and stores
  nothing.
\<close>

definition evaluate_expression ::
  "('n, 'v) externals \<Rightarrow> table_data \<Rightarrow> jstring \<Rightarrow> eval_state \<Rightarrow> jstring \<times> eval_state" where
  "evaluate_expression ext tableData expression st =
     (case expressionCache st expression of
        Some cached \<Rightarrow> (cached, st)
      | None \<Rightarrow>
          if startsWith expression (js ''$$'') \<and> endsWith expression (js ''$$'') then
            (let latexExpression = trim (slice expression 2 (- 2));
                 st1 = called (KatexRender latexExpression) st
             in case katex_renderToString ext latexExpression False of
                  Inl error \<Rightarrow> (error_marker expression, st1)
                | Inr result \<Rightarrow> (result, cache_set expression result st1))
          else if includes_js expression (js ''table'') then
            (let processedExpression = processTableExpression expression tableData;
                 st1 = called (MathEvaluate processedExpression) st
             in case math_evaluate ext processedExpression
                       (Some (\<lambda>tableName startCell endCell.
                                getRange ext tableName startCell endCell tableData)) of
                  Inl error \<Rightarrow> (error_marker expression, st1)
                | Inr result \<Rightarrow>
                    (case (if typeof_number ext result
                           then (case math_round ext result of
                                   Inl error \<Rightarrow> Inl error
                                 | Inr rounded \<Rightarrow> value_toString ext rounded)
                           else value_toString ext result) of
                       Inl error \<Rightarrow> (error_marker expression, st1)
                     | Inr roundedResult \<Rightarrow>
                         (roundedResult, cache_set expression roundedResult st1)))
          else
            (let st1 = called (MathEvaluate expression) st
             in case math_evaluate ext expression None of
                  Inl error \<Rightarrow> (error_marker expression, st1)
                | Inr v \<Rightarrow>
                    (case math_round ext v of
                       Inl error \<Rightarrow> (error_marker expression, st1)
                     | Inr rounded \<Rightarrow>
                         (case value_toString ext rounded of
                            Inl error \<Rightarrow> (error_marker expression, st1)
                          | Inr result \<Rightarrow> (result, cache_set expression result st1)))))"

text \<open>
  \<open>content.replace(/\{([^}]+)\}/g, callback)\<close>: at an opening brace followed by at least
  one character other than a closing brace and then a closing brace, the match is
  replaced by what the callback returns and the scan goes on behind the closing brace;
  any other character is copied.
\<close>

function evaluateTableExpressions ::
  "('n, 'v) externals \<Rightarrow> jstring \<Rightarrow> table_data \<Rightarrow> eval_state \<Rightarrow> jstring \<times> eval_state" where
  "evaluateTableExpressions ext content tableData st =
     (case content of
        [] \<Rightarrow> ([], st)
      | c # cs \<Rightarrow>
          if c = 123 \<and> takeWhile (\<lambda>x. x \<noteq> 125) cs \<noteq> [] \<and> dropWhile (\<lambda>x. x \<noteq> 125) cs \<noteq> [] then
            (let expression = takeWhile (\<lambda>x. x \<noteq> 125) cs;
                 (replacement, st1) = evaluate_expression ext tableData expression st;
                 (out, st2) =
                   evaluateTableExpressions ext (tl (dropWhile (\<lambda>x. x \<noteq> 125) cs)) tableData st1
             in (replacement @ out, st2))
          else
            (let (out, st1) = evaluateTableExpressions ext cs tableData st
             in (c # out, st1)))"
  by pat_completeness auto
termination
proof (relation "measure (\<lambda>(ext, content, tableData, st). length content)")
  show "wf (measure (\<lambda>(ext :: ('n, 'v) externals, content :: jstring, tableData :: table_data,
              st :: eval_state). length content))"
    by simp
next
  fix ext :: "('n, 'v) externals" and content :: jstring and tableData :: table_data
    and st st1 :: eval_state and c :: code_unit and cs expression x replacement :: jstring
    and xa :: "jstring \<times> eval_state"
  assume "content = c # cs"
  moreover have "length (tl (dropWhile (\<lambda>x. x \<noteq> 125) cs)) \<le> length cs"
    using length_dropWhile_le[of "\<lambda>x. x \<noteq> 125" cs] by simp
  ultimately show "((ext, tl (dropWhile (\<lambda>x. x \<noteq> 125) cs), tableData, st1),
             ext, content, tableData, st) \<in>
            measure (\<lambda>(ext, content, tableData, st). length content)"
    by simp
next
  fix ext :: "('n, 'v) externals" and content :: jstring and tableData :: table_data
    and st :: eval_state and c :: code_unit and cs :: jstring
  assume "content = c # cs"
  then show "((ext, cs, tableData, st), ext, content, tableData, st) \<in>
            measure (\<lambda>(ext, content, tableData, st). length content)"
    by simp
qed

declare evaluateTableExpressions.simps [simp del]

section \<open>The refresh cycle\<close>

text \<open>
  The body of \<open>updateContent\<close>, run once the debounce timer fires. It reads the selection
  and \<open>editor.getHTML()\<close>, and the \<open>previousContent\<close> that its closure holds; it issues
  commands to the editor and may call \<open>setPreviousContent\<close>. The model returns the
  commands in the order issued, the value of \<open>previousContent\<close> after the run, and the
  evaluator's state. The registration of the handler is modelled further down.
\<close>

text \<open>
  \<^verbatim>\<open>const selection = editor.state.selection;\<close>
  \<^verbatim>\<open>const start = selection.from; const end = selection.to;\<close>
  \<^verbatim>\<open>const str = editor.getHTML();\<close>
  \<^verbatim>\<open>if (str.includes("}")) {\<close>
  \<^verbatim>\<open>  if (str !== previousContent) {\<close>
  \<^verbatim>\<open>    const parsedTableData = parseTables(str);\<close>
  \<^verbatim>\<open>    const newContent = evaluateTableExpressions(parsedTableData.content,\<close>
  \<^verbatim>\<open>                                                parsedTableData.tableData);\<close>
  \<^verbatim>\<open>    if (newContent !== previousContent) {\<close>
  \<^verbatim>\<open>      editor.commands.setContent(newContent, false, { preserveWhitespace: true });\<close>
  \<^verbatim>\<open>      setPreviousContent(newContent);\<close>
  \<^verbatim>\<open>    }\<close>
  \<^verbatim>\<open>    editor.commands.setTextSelection({ from: start, to: end });\<close>
  \<^verbatim>\<open>  }\<close>
  \<^verbatim>\<open>}\<close>
\<close>

datatype editor_command = SetContent jstring | SetTextSelection int int

definition updateContent ::
  "('n, 'v) externals \<Rightarrow> int \<times> int \<Rightarrow> jstring \<Rightarrow> jstring \<Rightarrow> eval_state \<Rightarrow>
     editor_command list \<times> jstring \<times> eval_state" where
  "updateContent ext selection str previousContent st =
     (let start = fst selection; end' = snd selection
      in if includes_js str (js ''}'') then
           if str \<noteq> previousContent then
             (let parsedTableData = parseTables (dom_tables ext) str;
                  (newContent, st1) =
                    evaluateTableExpressions ext (fst parsedTableData) (snd parsedTableData) st
              in if newContent \<noteq> previousContent
                 then ([SetContent newContent, SetTextSelection start end'], newContent, st1)
                 else ([SetTextSelection start end'], previousContent, st1))
           else ([], previousContent, st)
         else ([], previousContent, st))"

section \<open>The editing surface\<close>

text \<open>
  Modelled from the spec: the editing surface is outside the repository. Its interface in
  the specification has \<open>replaceContent\<close>, an atomic replacement of the whole content,
  \<open>setSelection\<close>, and \<open>getContentSnapshot\<close> and \<open>getSelection\<close>, which return the current
  content and selection.
\<close>

record editor =
  editor_html :: jstring
  editor_selection :: "int \<times> int"

primrec run_command :: "editor_command \<Rightarrow> editor \<Rightarrow> editor" where
  "run_command (SetContent s) ed = ed\<lparr>editor_html := s\<rparr>"
| "run_command (SetTextSelection a b) ed = ed\<lparr>editor_selection := (a, b)\<rparr>"

section \<open>The component and its handlers\<close>

text \<open>
  \<^verbatim>\<open>const [previousContent, setPreviousContent] = useState<string>("");\<close>
  \<^verbatim>\<open>useEffect(() => {\<close>
  \<^verbatim>\<open>  if (editor) {\<close>
  \<^verbatim>\<open>    const updateContent = debounce(() => { ... }, 300);\<close>
  \<^verbatim>\<open>    editor.on("update", updateContent);\<close>
  \<^verbatim>\<open>  }\<close>
  \<^verbatim>\<open>}, [editor, previousContent]);\<close>
\<close>

text \<open>
  The component keeps \<open>previousContent\<close> in a state variable that starts as the empty
  string. Its effect registers a handler for the editor's \<open>update\<close> event; the handler's
  closure holds the value that \<open>previousContent\<close> had in the render that registered it. The
  effect depends on \<open>previousContent\<close> and returns no cleanup function, and nothing calls
  \<open>editor.off\<close>: when the state variable changes, the effect runs again and registers one
  more handler, and the handlers registered before stay. The view is the editor, the
  state variable, the list of the registered handlers in the order of registration (each
  one given by the \<open>previousContent\<close> of its closure), and the state of the evaluator,
  which is at module level.

  \<open>handler_run\<close> is one handler's run of the body of \<open>updateContent\<close> on the view. The body
  calls \<open>setPreviousContent\<close> exactly when the value that \<open>updateContent\<close> returns differs
  from the one of the closure; a call with the value that the state variable already
  holds changes nothing. \<open>update_event\<close> is one \<open>update\<close> event of the editor: each handler
  registered at that moment starts its own timer, and the timers fire in the order of
  registration. The render that follows a change of the state variable, and with it the
  registration of the next handler, is taken to come before the next timer fires.
  \<open>setContent\<close> is called with \<open>emitUpdate\<close> false, and a change of the selection alone is
  no update of the document, so a run starts no further event.
\<close>

record view =
  view_editor :: editor
  view_previousContent :: jstring
  view_handlers :: "jstring list"
  view_eval :: eval_state

definition mount :: "editor \<Rightarrow> eval_state \<Rightarrow> view" where
  "mount ed st =
     \<lparr>view_editor = ed, view_previousContent = [], view_handlers = [[]], view_eval = st\<rparr>"

definition handler_run ::
  "('n, 'v) externals \<Rightarrow> jstring \<Rightarrow> view \<Rightarrow> editor_command list \<times> view" where
  "handler_run ext closure_previousContent v =
     (let r = updateContent ext (editor_selection (view_editor v)) (editor_html (view_editor v))
                closure_previousContent (view_eval v);
          state' = (if fst (snd r) \<noteq> closure_previousContent then fst (snd r)
                    else view_previousContent v)
      in (fst r,
          \<lparr>view_editor = fold run_command (fst r) (view_editor v),
           view_previousContent = state',
           view_handlers =
             (if state' \<noteq> view_previousContent v then view_handlers v @ [state']
              else view_handlers v),
           view_eval = snd (snd r)\<rparr>))"

fun run_handlers ::
  "('n, 'v) externals \<Rightarrow> jstring list \<Rightarrow> view \<Rightarrow> editor_command list \<times> view" where
  "run_handlers ext [] v = ([], v)"
| "run_handlers ext (h # hs) v =
     (let r1 = handler_run ext h v; r2 = run_handlers ext hs (snd r1)
      in (fst r1 @ fst r2, snd r2))"

definition update_event :: "('n, 'v) externals \<Rightarrow> view \<Rightarrow> editor_command list \<times> view" where
  "update_event ext v = run_handlers ext (view_handlers v) v"

section \<open>Notions used in the statements\<close>

text \<open>
  The placeholders of a document, in source order: the texts that
  \<open>/\{([^}]+)\}/g\<close> captures, found by the scan of \<open>evaluateTableExpressions\<close>.
\<close>

function placeholders :: "jstring \<Rightarrow> jstring list" where
  "placeholders content =
     (case content of
        [] \<Rightarrow> []
      | c # cs \<Rightarrow>
          if c = 123 \<and> takeWhile (\<lambda>x. x \<noteq> 125) cs \<noteq> [] \<and> dropWhile (\<lambda>x. x \<noteq> 125) cs \<noteq> [] then
            takeWhile (\<lambda>x. x \<noteq> 125) cs # placeholders (tl (dropWhile (\<lambda>x. x \<noteq> 125) cs))
          else placeholders cs)"
  by pat_completeness auto
termination
proof (relation "measure length")
  show "wf (measure (length :: jstring \<Rightarrow> nat))"
    by simp
next
  fix content :: jstring and c :: code_unit and cs :: jstring
  assume "content = c # cs"
  moreover have "length (tl (dropWhile (\<lambda>x. x \<noteq> 125) cs)) \<le> length cs"
    using length_dropWhile_le[of "\<lambda>x. x \<noteq> 125" cs] by simp
  ultimately show "(tl (dropWhile (\<lambda>x. x \<noteq> 125) cs), content) \<in> measure length"
    by simp
next
  fix content :: jstring and c :: code_unit and cs :: jstring
  assume "content = c # cs"
  then show "(cs, content) \<in> measure length"
    by simp
qed

declare placeholders.simps [simp del]

text \<open>
  What a cache miss computes for an expression, apart from the state: the call it makes
  and the outcome of the \<open>try\<close> block (\<open>Inl\<close> when the \<open>catch\<close> is entered).
\<close>

definition fresh_call :: "('n, 'v) externals \<Rightarrow> table_data \<Rightarrow> jstring \<Rightarrow> evaluator_call" where
  "fresh_call ext tableData e =
     (if startsWith e (js ''$$'') \<and> endsWith e (js ''$$'') then KatexRender (trim (slice e 2 (- 2)))
      else if includes_js e (js ''table'') then MathEvaluate (processTableExpression e tableData)
      else MathEvaluate e)"

definition fresh_render :: "('n, 'v) externals \<Rightarrow> table_data \<Rightarrow> jstring \<Rightarrow> js_error + jstring" where
  "fresh_render ext tableData e =
     (if startsWith e (js ''$$'') \<and> endsWith e (js ''$$'') then
        katex_renderToString ext (trim (slice e 2 (- 2))) False
      else if includes_js e (js ''table'') then
        (case math_evaluate ext (processTableExpression e tableData)
                (Some (\<lambda>tableName startCell endCell.
                         getRange ext tableName startCell endCell tableData)) of
           Inl error \<Rightarrow> Inl error
         | Inr result \<Rightarrow>
             if typeof_number ext result
             then (case math_round ext result of
                     Inl error \<Rightarrow> Inl error
                   | Inr rounded \<Rightarrow> value_toString ext rounded)
             else value_toString ext result)
      else
        (case math_evaluate ext e None of
           Inl error \<Rightarrow> Inl error
         | Inr v \<Rightarrow>
             (case math_round ext v of
                Inl error \<Rightarrow> Inl error
              | Inr rounded \<Rightarrow> value_toString ext rounded)))"

text \<open>
  A later state of the cache, seen from an earlier one: every entry of the earlier state
  is still there, and an entry the earlier state lacks holds what a miss computes for
  that text under the given collaborators and table index.
\<close>

definition grown_from ::
  "('n, 'v) externals \<Rightarrow> table_data \<Rightarrow> eval_state \<Rightarrow> eval_state \<Rightarrow> bool" where
  "grown_from ext tableData st st' \<longleftrightarrow>
     (\<forall>e. case expressionCache st e of
            Some r \<Rightarrow> expressionCache st' e = Some r
          | None \<Rightarrow>
              (case expressionCache st' e of
                 None \<Rightarrow> True
               | Some r \<Rightarrow> fresh_render ext tableData e = Inr r))"

section \<open>Concrete collaborators for the examples\<close>

text \<open>
  The examples need collaborators that compute. \<open>decimal_Number\<close> is \<open>Number\<close> on
  strings of decimal digits (\<open>NaN\<close>, that is \<open>None\<close>, on any other text);
  \<open>example_evaluate\<close> stands for \<open>math.evaluate\<close> on two forms of expression, a decimal
  literal and \<open>sum(getRange("T", "S", "E"))\<close>, and rejects every other text with a
  \<open>SyntaxError\<close>; the document of the examples holds one table with A1=1, B1=3, A2=2, B2=4.
\<close>

definition decimal_Number :: "jstring \<Rightarrow> int option" where
  "decimal_Number s =
     (if s \<noteq> [] \<and> (\<forall>c \<in> set s. 48 \<le> c \<and> c \<le> 57)
      then Some (foldl (\<lambda>a c. a * 10 + (uint c - 48)) 0 s) else None)"

definition strip_prefix :: "jstring \<Rightarrow> jstring \<Rightarrow> jstring option" where
  "strip_prefix p s = (if startsWith s p then Some (drop (length p) s) else None)"

definition quoted_arg :: "jstring \<Rightarrow> jstring \<Rightarrow> (jstring \<times> jstring) option" where
  "quoted_arg p s =
     (case strip_prefix p s of
        None \<Rightarrow> None
      | Some r \<Rightarrow> Some (takeWhile (\<lambda>c. c \<noteq> 34) r, dropWhile (\<lambda>c. c \<noteq> 34) r))"

definition example_evaluate ::
  "jstring \<Rightarrow> (jstring \<Rightarrow> jstring \<Rightarrow> jstring \<Rightarrow> (js_error + int option list) option) option \<Rightarrow>
     js_error + int"
  where
  "example_evaluate e scope =
     (case decimal_Number e of
        Some n \<Rightarrow> Inr n
      | None \<Rightarrow>
          (case quoted_arg (js ''sum(getRange(\"'') e of
             None \<Rightarrow> Inl (Throw SyntaxError e)
           | Some (t, r1) \<Rightarrow>
               (case quoted_arg (js ''\", \"'') r1 of
                  None \<Rightarrow> Inl (Throw SyntaxError e)
                | Some (s, r2) \<Rightarrow>
                    (case quoted_arg (js ''\", \"'') r2 of
                       None \<Rightarrow> Inl (Throw SyntaxError e)
                     | Some (f, r3) \<Rightarrow>
                         if r3 \<noteq> js ''\"))'' then Inl (Throw SyntaxError e)
                         else
                           (case scope of
                              None \<Rightarrow> Inl (Throw Error (js ''Undefined function getRange''))
                            | Some getRange' \<Rightarrow>
                                (case getRange' t s f of
                                   None \<Rightarrow> Inl (Throw RangeError (js ''no value''))
                                 | Some (Inl err) \<Rightarrow> Inl err
                                 | Some (Inr vs) \<Rightarrow>
                                     Inr (sum_list (map (\<lambda>v. case v of None \<Rightarrow> 0 | Some n \<Rightarrow> n) vs))))))))"

definition example_externals :: "(int option, int) externals" where
  "example_externals =
     \<lparr> dom_tables = (\<lambda>content.
          if includes_js content (js ''<table>'')
          then [[[js ''1'', js ''3''], [js ''2'', js ''4'']]] else []),
       js_Number = decimal_Number,
       js_isNaN = (\<lambda>n. n = None),
       math_evaluate = example_evaluate,
       typeof_number = (\<lambda>v. True),
       math_round = (\<lambda>v. Inr v),
       value_toString = (\<lambda>v. Inr (number_toString v)),
       katex_renderToString = (\<lambda>latex throwOnError.
          Inr (js ''<span class=\"katex\">'' @ latex @ js ''</span>'')) \<rparr>"

definition example_table :: "jstring \<rightharpoonup> jstring" where
  "example_table =
     [js ''A1'' \<mapsto> js ''1'', js ''B1'' \<mapsto> js ''3'', js ''A2'' \<mapsto> js ''2'', js ''B2'' \<mapsto> js ''4'']"

definition example_tableData :: table_data where
  "example_tableData = [js ''table1'' \<mapsto> example_table]"

definition example_tableData_edited :: table_data where
  "example_tableData_edited = [js ''table1'' \<mapsto> example_table(js ''A1'' \<mapsto> js ''5'')]"

definition example_tableData9 :: table_data where
  "example_tableData9 = example_tableData(js ''table9'' \<mapsto> example_table)"

text \<open>
  A table index whose \<open>table1\<close> has cells in the rows \<open>2^53\<close> and \<open>2^53 + 1\<close> of column A.
\<close>

definition far_table :: "jstring \<rightharpoonup> jstring" where
  "far_table = [js ''A9007199254740992'' \<mapsto> js ''7'', js ''A9007199254740993'' \<mapsto> js ''8'']"

definition far_tableData :: table_data where
  "far_tableData = [js ''table1'' \<mapsto> far_table]"

definition empty_state :: eval_state where
  "empty_state = \<lparr>expressionCache = Map.empty, calls = []\<rparr>"

text \<open>
  The component just mounted on an editor that holds the document \<open><p>{12}}</p>\<close>, with
  the selection (5, 5).
\<close>

definition example_view :: view where
  "example_view =
     mount \<lparr>editor_html = js ''<p>{12}}</p>'', editor_selection = (5, 5)\<rparr> empty_state"

chapter \<open>Properties\<close>

section \<open>Decimal rendering is injective\<close>

definition digits_value :: "jstring \<Rightarrow> nat" where
  "digits_value ds = foldl (\<lambda>a d. 10 * a + (unat d - 48)) 0 ds"

lemma digits_value_snoc: "digits_value (ds @ [d]) = 10 * digits_value ds + (unat d - 48)"
  by (simp add: digits_value_def)

lemma digits_value_nat_digits: "digits_value (nat_digits n) = n"
proof (induction n rule: nat_digits.induct)
  case (1 n)
  show ?case
  proof (cases "n < 10")
    case True
    then have "unat (of_nat (48 + n) :: code_unit) = 48 + n"
      by (simp only: unat_of_nat) simp
    with True show ?thesis
      by (simp add: digits_value_def)
  next
    case False
    have "unat (of_nat (48 + n mod 10) :: code_unit) = 48 + n mod 10"
      by (simp only: unat_of_nat) simp
    with False 1 show ?thesis
      by (subst nat_digits.simps) (simp add: digits_value_snoc)
  qed
qed

lemma nat_digits_inj: "nat_digits m = nat_digits n \<Longrightarrow> m = n"
  by (metis digits_value_nat_digits)

lemma number_toString_nat_inj:
  "number_toString (int a + 1) = number_toString (int b + 1) \<longleftrightarrow> a = b"
proof
  assume "number_toString (int a + 1) = number_toString (int b + 1)"
  then have "nat_digits (nat (int a + 1)) = nat_digits (nat (int b + 1))"
    by (simp add: number_toString_def)
  then have "nat (int a + 1) = nat (int b + 1)"
    by (rule nat_digits_inj)
  then show "a = b" by simp
qed simp

lemma letter_eq_iff:
  assumes "C < 65536" "C' < 65536"
  shows "columnIndexToLetter (int C) = columnIndexToLetter (int C') \<longleftrightarrow> C = C'"
proof
  assume "columnIndexToLetter (int C) = columnIndexToLetter (int C')"
  then have "(word_of_int (65 + int C) :: code_unit) = word_of_int (65 + int C')"
    unfolding columnIndexToLetter_def fromCharCode_def by blast
  then have "take_bit LENGTH(16) (65 + int C) = take_bit LENGTH(16) (65 + int C')"
    by (simp only: word_of_int_eq_iff)
  then have "(65 + int C) mod 2 ^ LENGTH(16) = (65 + int C') mod 2 ^ LENGTH(16)"
    by (simp only: take_bit_eq_mod)
  then have "(2 ^ LENGTH(16) :: int) dvd (65 + int C) - (65 + int C')"
    by (simp only: mod_eq_dvd_iff)
  then obtain k where k: "(65 + int C) - (65 + int C') = 2 ^ LENGTH(16) * k"
    by (auto simp only: dvd_def)
  have "(2 :: int) ^ LENGTH(16) = 65536" by simp
  with k have "int C - int C' = 65536 * k" by simp
  with assms have "k = 0" by arith
  with \<open>int C - int C' = 65536 * k\<close> show "C = C'" by simp
qed simp

lemma cellRef_eq_iff:
  "columnIndexToLetter c @ number_toString (int R + 1) =
   columnIndexToLetter c' @ number_toString (int R' + 1) \<longleftrightarrow>
   columnIndexToLetter c = columnIndexToLetter c' \<and> R = R'"
  by (auto simp: columnIndexToLetter_def fromCharCode_def number_toString_nat_inj)

section \<open>Folding indexed updates into a map\<close>

lemma enumerate_snoc: "enumerate n (xs @ [x]) = enumerate n xs @ [(n + length xs, x)]"
  by (simp add: enumerate_append_eq)

lemma fold_upd_snoc:
  assumes f: "\<And>i x m. f (i, x) m = m(key i \<mapsto> val i x)"
  shows "fold f (enumerate n (xs @ [x])) m =
         (fold f (enumerate n xs) m)(key (n + length xs) \<mapsto> val (n + length xs) x)"
  by (simp add: enumerate_snoc f)

lemma range_snoc: "{n ..< n + length (xs @ [x])} = insert (n + length xs) {n ..< n + length xs}"
  by auto

lemma fold_upd_dom:
  assumes f: "\<And>i x m. f (i, x) m = m(key i \<mapsto> val i x)"
  shows "dom (fold f (enumerate n xs) m) = dom m \<union> key ` {n ..< n + length xs}"
proof (induction xs rule: rev_induct)
  case Nil
  then show ?case by simp
next
  case (snoc x xs)
  then show ?case
    by (simp only: fold_upd_snoc[of f, OF f] range_snoc dom_fun_upd) auto
qed

lemma fold_upd_other:
  assumes f: "\<And>i x m. f (i, x) m = m(key i \<mapsto> val i x)"
    and k: "k \<notin> key ` {n ..< n + length xs}"
  shows "fold f (enumerate n xs) m k = m k"
  using k
proof (induction xs rule: rev_induct)
  case Nil
  then show ?case by simp
next
  case (snoc x xs)
  from snoc.prems have ne: "k \<noteq> key (n + length xs)"
    and notin: "k \<notin> key ` {n ..< n + length xs}"
    by (simp_all only: range_snoc image_insert insert_iff de_Morgan_disj simp_thms)
  from snoc.IH[OF notin] ne show ?case
    by (simp only: fold_upd_snoc[of f, OF f] fun_upd_apply if_False)
qed

lemma fold_upd_at:
  assumes f: "\<And>i x m. f (i, x) m = m(key i \<mapsto> val i x)"
    and "i < length xs"
    and "\<forall>j. i < j \<and> j < length xs \<longrightarrow> key (n + j) \<noteq> key (n + i)"
  shows "fold f (enumerate n xs) m (key (n + i)) = Some (val (n + i) (xs ! i))"
  using assms(2,3)
proof (induction xs rule: rev_induct)
  case Nil
  then show ?case by simp
next
  case (snoc x xs)
  show ?case
  proof (cases "i = length xs")
    case True
    then show ?thesis
      by (simp only: fold_upd_snoc[of f, OF f] fun_upd_apply) simp
  next
    case False
    with snoc.prems have lt: "i < length xs" by simp
    from snoc.prems(2) lt have ne: "key (n + i) \<noteq> key (n + length xs)" by fastforce
    have "\<forall>j. i < j \<and> j < length xs \<longrightarrow> key (n + j) \<noteq> key (n + i)"
      using snoc.prems(2) by simp
    from snoc.IH[OF lt this] ne lt show ?thesis
      by (simp only: fold_upd_snoc[of f, OF f] fun_upd_apply if_False nth_append if_True)
  qed
qed

section \<open>The table indexer: coordinates\<close>

lemma parseTables_cells_dom:
  "dom (parseTables_cells R cells tbl) =
   dom tbl \<union> (\<lambda>C. columnIndexToLetter (int C) @ number_toString (int R + 1)) ` {..< length cells}"
  unfolding parseTables_cells_def
  by (subst fold_upd_dom[where key = "\<lambda>C. columnIndexToLetter (int C) @ number_toString (int R + 1)"
        and val = "\<lambda>C x. if trim x = [] then [] else trim x"])
     (simp_all add: lessThan_atLeast0)

lemma parseTables_cells_other:
  assumes "\<forall>C < length cells. k \<noteq> columnIndexToLetter (int C) @ number_toString (int R + 1)"
  shows "parseTables_cells R cells tbl k = tbl k"
  unfolding parseTables_cells_def
  by (rule fold_upd_other[where key = "\<lambda>C. columnIndexToLetter (int C) @ number_toString (int R + 1)"
        and val = "\<lambda>C x. if trim x = [] then [] else trim x"])
     (use assms in auto)

lemma parseTables_cells_at:
  assumes "C < length cells" "length cells \<le> 65536"
  shows "parseTables_cells R cells tbl (columnIndexToLetter (int C) @ number_toString (int R + 1)) =
         Some (if trim (cells ! C) = [] then [] else trim (cells ! C))"
proof -
  have inj: "\<forall>j. C < j \<and> j < length cells \<longrightarrow>
      columnIndexToLetter (int (0 + j)) @ number_toString (int R + 1) \<noteq>
      columnIndexToLetter (int (0 + C)) @ number_toString (int R + 1)"
    using assms by (auto simp: letter_eq_iff)
  show ?thesis
    unfolding parseTables_cells_def
    using fold_upd_at[where key = "\<lambda>C. columnIndexToLetter (int C) @ number_toString (int R + 1)"
        and val = "\<lambda>C x. if trim x = [] then [] else trim x" and n = 0 and i = C
        and xs = cells and m = tbl
        and f = "\<lambda>(cellIndex, textContent) t.
             t(columnIndexToLetter (int cellIndex) @ number_toString (int R + 1) \<mapsto>
                 (if trim textContent = [] then [] else trim textContent))", OF _ assms(1) inj]
    by simp
qed

lemma parseTables_rows_snoc:
  "parseTables_rows (rows @ [row]) = parseTables_cells (length rows) row (parseTables_rows rows)"
  by (simp add: parseTables_rows_def enumerate_snoc)

lemma parseTables_rows_dom:
  "dom (parseTables_rows rows) =
   {columnIndexToLetter (int C) @ number_toString (int R + 1) | R C.
      R < length rows \<and> C < length (rows ! R)}"
proof (induction rows rule: rev_induct)
  case Nil
  then show ?case by (simp add: parseTables_rows_def)
next
  case (snoc row rows)
  let ?K = "\<lambda>R C. columnIndexToLetter (int C) @ number_toString (int R + 1)"
  have "{?K R C | R C. R < length (rows @ [row]) \<and> C < length ((rows @ [row]) ! R)} =
        {?K R C | R C. R < length rows \<and> C < length (rows ! R)} \<union>
        (\<lambda>C. ?K (length rows) C) ` {..< length row}" (is "?A = ?B \<union> ?D")
  proof (intro set_eqI iffI)
    fix k assume "k \<in> ?A"
    then obtain R C where k: "k = ?K R C" and R: "R < length (rows @ [row])"
      and C: "C < length ((rows @ [row]) ! R)" by blast
    show "k \<in> ?B \<union> ?D"
    proof (cases "R < length rows")
      case True
      with C have "C < length (rows ! R)" by (simp add: nth_append)
      with True k show ?thesis by blast
    next
      case False
      with R have "R = length rows" by simp
      with C k show ?thesis by simp
    qed
  next
    fix k assume "k \<in> ?B \<union> ?D"
    then consider (old) R C where "k = ?K R C" "R < length rows" "C < length (rows ! R)"
      | (new) C where "k = ?K (length rows) C" "C < length row" by blast
    then show "k \<in> ?A"
    proof cases
      case old
      then have "R < length (rows @ [row])" "C < length ((rows @ [row]) ! R)"
        by (simp_all add: nth_append)
      with old(1) show ?thesis by blast
    next
      case new
      then have "length rows < length (rows @ [row])"
        "C < length ((rows @ [row]) ! length rows)" by simp_all
      with new(1) show ?thesis by blast
    qed
  qed
  then show ?case
    unfolding parseTables_rows_snoc parseTables_cells_dom snoc.IH by simp
qed

lemma parseTables_rows_at:
  assumes "R < length rows" "C < length (rows ! R)" "length (rows ! R) \<le> 65536"
  shows "parseTables_rows rows (columnIndexToLetter (int C) @ number_toString (int R + 1)) =
         Some (if trim (rows ! R ! C) = [] then [] else trim (rows ! R ! C))"
  using assms
proof (induction rows rule: rev_induct)
  case Nil
  then show ?case by simp
next
  case (snoc row rows)
  show ?case
  proof (cases "R = length rows")
    case True
    with snoc.prems show ?thesis
      by (simp add: parseTables_rows_snoc parseTables_cells_at)
  next
    case False
    with snoc.prems have lt: "R < length rows" by simp
    have "parseTables_cells (length rows) row (parseTables_rows rows)
            (columnIndexToLetter (int C) @ number_toString (int R + 1)) =
          parseTables_rows rows (columnIndexToLetter (int C) @ number_toString (int R + 1))"
      by (rule parseTables_cells_other) (use False in \<open>simp add: cellRef_eq_iff\<close>)
    with snoc lt show ?thesis
      by (simp add: parseTables_rows_snoc nth_append)
  qed
qed

lemma tableName_inj:
  "js ''table'' @ number_toString (int a + 1) = js ''table'' @ number_toString (int b + 1) \<longleftrightarrow> a = b"
  by (simp add: number_toString_nat_inj)

lemma parseTables_table:
  assumes "T < length (querySelectorAll content)"
  shows "snd (parseTables querySelectorAll content) (js ''table'' @ number_toString (int T + 1)) =
         Some (parseTables_rows (querySelectorAll content ! T))"
proof -
  have inj: "\<forall>j. T < j \<and> j < length (querySelectorAll content) \<longrightarrow>
      js ''table'' @ number_toString (int (0 + j) + 1) \<noteq> js ''table'' @ number_toString (int (0 + T) + 1)"
    by (simp add: number_toString_nat_inj)
  show ?thesis
    unfolding parseTables_def snd_conv
    using fold_upd_at[where key = "\<lambda>T. js ''table'' @ number_toString (int T + 1)"
        and val = "\<lambda>T table. parseTables_rows table" and n = 0 and i = T
        and xs = "querySelectorAll content" and m = Map.empty
        and f = "\<lambda>(tableIndex, table) tableData.
              tableData(js ''table'' @ number_toString (int tableIndex + 1) \<mapsto>
                          parseTables_rows table)", OF _ assms inj]
    by simp
qed

text \<open>
  Claim C1. For every table of the document (the \<open>T\<close>-th one, named \<open>table<T+1>\<close>), the
  index holds a cell map whose keys are exactly the coordinates
  \<open>letter(C) + (R+1)\<close> of the cells at row \<open>R\<close> and position \<open>C\<close>, whatever the cells
  contain; the trimmed text of the cell is stored under its coordinate (in a row of at
  most \<open>2^16\<close> cells, where \<open>String.fromCharCode\<close> does not wrap around); and \<open>letter\<close> maps
  0 to A, 1 to B, 2 to C, up to 25 to Z. The instance below is the table of two rows and
  three columns, with coordinates A1, B1, C1 and A2, B2, C2 for any cell contents.
\<close>

theorem parseTables_assigns_coordinates:
  assumes "T < length (querySelectorAll content)"
  shows "\<exists>cells.
      snd (parseTables querySelectorAll content) (js ''table'' @ number_toString (int T + 1)) =
        Some cells \<and>
      dom cells =
        {columnIndexToLetter (int C) @ number_toString (int R + 1) | R C.
           R < length (querySelectorAll content ! T) \<and>
           C < length (querySelectorAll content ! T ! R)} \<and>
      (\<forall>R C. R < length (querySelectorAll content ! T) \<and>
             C < length (querySelectorAll content ! T ! R) \<and>
             length (querySelectorAll content ! T ! R) \<le> 65536 \<longrightarrow>
         cells (columnIndexToLetter (int C) @ number_toString (int R + 1)) =
           Some (trim (querySelectorAll content ! T ! R ! C))) \<and>
      columnIndexToLetter 0 = js ''A'' \<and> columnIndexToLetter 1 = js ''B'' \<and>
      columnIndexToLetter 2 = js ''C'' \<and> columnIndexToLetter 25 = js ''Z''"
proof -
  have letters: "columnIndexToLetter 0 = js ''A''" "columnIndexToLetter 1 = js ''B''"
    "columnIndexToLetter 2 = js ''C''" "columnIndexToLetter 25 = js ''Z''"
    by (simp_all add: columnIndexToLetter_def fromCharCode_def js_def)
  show ?thesis
    by (rule exI[of _ "parseTables_rows (querySelectorAll content ! T)"])
       (simp add: parseTables_table[of T querySelectorAll content, OF assms] parseTables_rows_dom parseTables_rows_at letters)
qed

theorem parseTables_assigns_coordinates_witness:
  "\<forall>a1 b1 c1 a2 b2 c2. \<exists>cells.
      snd (parseTables (\<lambda>_. [[[a1, b1, c1], [a2, b2, c2]]]) []) (js ''table1'') = Some cells \<and>
      dom cells = {js ''A1'', js ''B1'', js ''C1'', js ''A2'', js ''B2'', js ''C2''} \<and>
      cells (js ''A1'') = Some (trim a1) \<and> cells (js ''B1'') = Some (trim b1) \<and>
      cells (js ''C1'') = Some (trim c1) \<and> cells (js ''A2'') = Some (trim a2) \<and>
      cells (js ''B2'') = Some (trim b2) \<and> cells (js ''C2'') = Some (trim c2)"
proof (intro allI)
  fix a1 b1 c1 a2 b2 c2 :: jstring
  let ?q = "\<lambda>_ :: jstring. [[[a1, b1, c1], [a2, b2, c2]]]"
  let ?K = "\<lambda>R C. columnIndexToLetter (int C) @ number_toString (int R + 1)"
  have "0 < length (?q [])" by simp
  from parseTables_assigns_coordinates[of 0 ?q "[]", OF this]
  obtain cells where
    tbl0: "snd (parseTables ?q []) (js ''table'' @ number_toString (int 0 + 1)) = Some cells"
    and d0: "dom cells = {?K R C | R C. R < length (?q [] ! 0) \<and> C < length (?q [] ! 0 ! R)}"
    and at0: "\<forall>R C. R < length (?q [] ! 0) \<and> C < length (?q [] ! 0 ! R) \<and>
        length (?q [] ! 0 ! R) \<le> 65536 \<longrightarrow>
        cells (?K R C) = Some (trim (?q [] ! 0 ! R ! C))"
    by blast
  from tbl0 have tbl: "snd (parseTables ?q []) (js ''table'' @ number_toString 1) = Some cells"
    by simp
  from d0 have d: "dom cells =
      {?K R C | R C. R < 2 \<and> C < length ([[a1, b1, c1], [a2, b2, c2]] ! R)}"
    by (simp add: numeral_2_eq_2)
  have at: "cells (?K R C) = Some (trim ([[a1, b1, c1], [a2, b2, c2]] ! R ! C))"
    if "R < 2" "C < length ([[a1, b1, c1], [a2, b2, c2]] ! R)" for R C
  proof -
    from that have "R = 0 \<or> R = 1" by auto
    then have "length ([[a1, b1, c1], [a2, b2, c2]] ! R) \<le> 65536" by auto
    with that at0 show ?thesis by (simp add: numeral_2_eq_2)
  qed
  have K: "?K 0 0 = js ''A1''" "?K 0 1 = js ''B1''" "?K 0 2 = js ''C1''"
    "?K 1 0 = js ''A2''" "?K 1 1 = js ''B2''" "?K 1 2 = js ''C2''"
    by (simp_all add: columnIndexToLetter_def fromCharCode_def number_toString_def js_def)
  have name: "js ''table'' @ number_toString 1 = js ''table1''"
    by (simp add: number_toString_def js_def)
  have "{?K R C | R C. R < 2 \<and> C < length ([[a1, b1, c1], [a2, b2, c2]] ! R)} =
        {?K 0 0, ?K 0 1, ?K 0 2, ?K 1 0, ?K 1 1, ?K 1 2}" (is "?A = ?B")
  proof (intro set_eqI iffI)
    fix k assume "k \<in> ?A"
    then obtain R C where k: "k = ?K R C" and "R < 2"
      and C: "C < length ([[a1, b1, c1], [a2, b2, c2]] ! R)" by blast
    then consider "R = 0" | "R = 1" by linarith
    then show "k \<in> ?B"
    proof cases
      case 1
      with C have "C = 0 \<or> C = 1 \<or> C = 2" by auto
      with 1 k show ?thesis by auto
    next
      case 2
      with C have "C = 0 \<or> C = 1 \<or> C = 2" by auto
      with 2 k show ?thesis by auto
    qed
  next
    fix k assume "k \<in> ?B"
    then consider "k = ?K 0 0" | "k = ?K 0 1" | "k = ?K 0 2" | "k = ?K 1 0" | "k = ?K 1 1" | "k = ?K 1 2"
      by blast
    then show "k \<in> ?A"
    proof cases
      case 1 then show ?thesis by (intro CollectI exI[of _ 0] conjI) auto
    next
      case 2 then show ?thesis by (intro CollectI exI[of _ 0] exI[of _ 1] conjI) auto
    next
      case 3 then show ?thesis by (intro CollectI exI[of _ 0] exI[of _ 2] conjI) auto
    next
      case 4 then show ?thesis by (intro CollectI exI[of _ 1] exI[of _ 0] conjI) auto
    next
      case 5 then show ?thesis by (intro CollectI exI[of _ 1] conjI) auto
    next
      case 6 then show ?thesis by (intro CollectI exI[of _ 1] exI[of _ 2] conjI) auto
    qed
  qed
  with d have d': "dom cells = {js ''A1'', js ''B1'', js ''C1'', js ''A2'', js ''B2'', js ''C2''}"
    by (simp only: K)
  have vals: "cells (?K 0 0) = Some (trim a1)" "cells (?K 0 1) = Some (trim b1)"
    "cells (?K 0 2) = Some (trim c1)" "cells (?K 1 0) = Some (trim a2)"
    "cells (?K 1 1) = Some (trim b2)" "cells (?K 1 2) = Some (trim c2)"
    using at[of 0 0] at[of 0 1] at[of 0 2] at[of 1 0] at[of 1 1] at[of 1 2] by simp_all
  show "\<exists>cells.
      snd (parseTables ?q []) (js ''table1'') = Some cells \<and>
      dom cells = {js ''A1'', js ''B1'', js ''C1'', js ''A2'', js ''B2'', js ''C2''} \<and>
      cells (js ''A1'') = Some (trim a1) \<and> cells (js ''B1'') = Some (trim b1) \<and>
      cells (js ''C1'') = Some (trim c1) \<and> cells (js ''A2'') = Some (trim a2) \<and>
      cells (js ''B2'') = Some (trim b2) \<and> cells (js ''C2'') = Some (trim c2)"
    using tbl d' vals unfolding K name by blast
qed

section \<open>The range lookup: loops and rectangle\<close>

lemma round_double_small: "\<bar>x\<bar> \<le> 2 ^ 53 \<Longrightarrow> round_double x = x"
  by (simp add: round_double_def)

lemma to_number_small: "\<bar>x\<bar> \<le> 2 ^ 53 \<Longrightarrow> to_number x = Finite x"
proof -
  assume a: "\<bar>x\<bar> \<le> 2 ^ 53"
  have "(2::int) ^ 53 < 2 ^ 1024"
    by (rule power_strict_increasing) simp_all
  with a have "\<not> 2 ^ 1024 \<le> x" "\<not> x \<le> - (2 ^ 1024)"
    by linarith+
  then show ?thesis
    unfolding to_number_def round_double_small[OF a] by (simp only: if_False)
qed

lemma getRange_rows_stop:
  "\<not> num_le row endRow \<Longrightarrow> getRange_rows ext table col row endRow values = Some values"
  by (subst getRange_rows.simps) simp

lemma getRange_rows_eq:
  assumes "- (2 ^ 53) \<le> row" and "endRow < 2 ^ 53"
  shows "getRange_rows ext table col (Finite row) (Finite endRow) values =
   Some (values @ concat (map (\<lambda>row. numeric_cell ext table col row) [row..endRow]))"
  using assms
proof (induction "nat (endRow + 1 - row)" arbitrary: row "values")
  case 0
  then have "\<not> num_le (Finite row) (Finite endRow)"
    by (simp add: num_le_def)
  moreover have "[row..endRow] = []"
    using 0 by simp
  ultimately show ?case
    by (simp add: getRange_rows_stop)
next
  case (Suc n)
  then have le: "row \<le> endRow"
    by simp
  have next_row: "num_add (Finite row) 1 = Finite (row + 1)"
    using Suc.prems le by (simp add: num_add_def to_number_small)
  define pushed where "pushed =
      (case table (fromCharCode (col + 65) @ number_toString (row + 1)) of
         None \<Rightarrow> values
       | Some v \<Rightarrow> if \<not> js_isNaN ext (js_Number ext v) then values @ [js_Number ext v] else values)"
  have step: "getRange_rows ext table col (Finite row) (Finite endRow) values =
              getRange_rows ext table col (Finite (row + 1)) (Finite endRow) pushed"
    by (subst getRange_rows.simps) (simp add: le next_row pushed_def num_le_def num_toString_def)
  have IH: "getRange_rows ext table col (Finite (row + 1)) (Finite endRow) pushed =
            Some (pushed @ concat (map (\<lambda>row. numeric_cell ext table col row) [row + 1..endRow]))"
    using Suc.hyps(1)[of "row + 1" pushed] Suc.hyps(2) Suc.prems by simp
  have pushed: "pushed = values @ numeric_cell ext table col row"
    by (simp add: pushed_def numeric_cell_def split: option.splits)
  have "[row..endRow] = row # [row + 1..endRow]"
    using le by (simp add: upto_rec1)
  then show ?case
    unfolding step IH by (simp add: pushed)
qed

lemma getRange_rows_stuck:
  assumes "num_add row 1 = row" and "num_le row endRow"
  shows "getRange_rows ext table col row endRow values = None"
proof (cases "getRange_rows ext table col row endRow values")
  case None
  then show ?thesis .
next
  case (Some y)
  have "\<not> (num_add row 1 = row \<and> num_le row endRow)"
  proof (rule getRange_rows.raw_induct
      [where P = "\<lambda>ext table col row endRow values y. \<not> (num_add row 1 = row \<and> num_le row endRow)",
        OF _ Some])
    fix f :: "('a, 'b) externals \<Rightarrow> (jstring \<rightharpoonup> jstring) \<Rightarrow> int \<Rightarrow> jsnum \<Rightarrow> jsnum \<Rightarrow> 'a list \<Rightarrow> 'a list option"
      and ext table col row endRow "values" y
    assume IH: "\<And>ext table col row endRow values y.
        f ext table col row endRow values = Some y \<Longrightarrow> \<not> (num_add row 1 = row \<and> num_le row endRow)"
      and body: "(if num_le row endRow
        then f ext table col (num_add row 1) endRow
          (case table (fromCharCode (col + 65) @ num_toString (num_add row 1)) of
             None \<Rightarrow> values
           | Some cellValue \<Rightarrow>
               if \<not> js_isNaN ext (js_Number ext cellValue)
               then values @ [js_Number ext cellValue]
               else values)
        else Some values) = Some y"
    show "\<not> (num_add row 1 = row \<and> num_le row endRow)"
    proof
      assume a: "num_add row 1 = row \<and> num_le row endRow"
      with body obtain vs where "f ext table col row endRow vs = Some y"
        by (simp split: if_splits)
      from IH[OF this] a show False by simp
    qed
  qed
  with assms show ?thesis by simp
qed

lemma getRange_cols_eq:
  assumes "- (2 ^ 53) \<le> startRow" and "endRow < 2 ^ 53"
  shows "getRange_cols ext table col endCol (Finite startRow) (Finite endRow) values =
   Some (values @ column_major ext table col endCol startRow endRow)"
proof (induction ext table col endCol "Finite startRow" "Finite endRow" "values"
    rule: getRange_cols.induct)
  case (1 ext table col endCol "values")
  show ?case
  proof (cases "col \<le> endCol")
    case True
    have "[col..endCol] = col # [col + 1..endCol]"
      using True by (simp add: upto_rec1)
    with True 1 show ?thesis
      by (subst getRange_cols.simps) (simp add: column_major_def getRange_rows_eq[OF assms])
  next
    case False
    then show ?thesis by (subst getRange_cols.simps) (simp add: column_major_def)
  qed
qed

lemma getRange_cols_reversed:
  "endCol < col \<Longrightarrow> getRange_cols ext table col endCol startRow endRow values = Some values"
  by (subst getRange_cols.simps) simp

lemma getRange_cols_no_rows:
  "\<not> num_le startRow endRow \<Longrightarrow>
   getRange_cols ext table col endCol startRow endRow values = Some values"
proof (induction ext table col endCol startRow endRow "values" rule: getRange_cols.induct)
  case (1 ext table col endCol startRow endRow "values")
  then show ?case
    by (subst getRange_cols.simps) (simp add: getRange_rows_stop)
qed

lemma parseInt_NaN: "parseInt_value s = None \<Longrightarrow> parseInt s = NaN"
  by (simp add: parseInt_def)

lemma parseInt_small: "parseInt_value s = Some r \<Longrightarrow> \<bar>r\<bar> < 2 ^ 53 \<Longrightarrow> parseInt s = Finite r"
  by (simp add: parseInt_def to_number_small)

lemma num_add_small: "\<bar>r\<bar> < 2 ^ 53 \<Longrightarrow> num_add (Finite r) (- 1) = Finite (r - 1)"
  by (simp add: num_add_def to_number_small)

lemma num_add_NaN: "num_add NaN k = NaN"
  by (simp add: num_add_def)

lemma num_le_NaN: "\<not> num_le NaN b" "\<not> num_le a NaN"
  by (simp_all add: num_le_def split: jsnum.splits)

lemma getRange_present:
  assumes "tableData tableName = Some table"
    and "\<forall>r. parseInt_value (slice startCell 1 (int (length startCell))) = Some r \<longrightarrow> \<bar>r\<bar> < 2 ^ 53"
    and "\<forall>s. parseInt_value (slice endCell 1 (int (length endCell))) = Some s \<longrightarrow> \<bar>s\<bar> < 2 ^ 53"
  shows "getRange ext tableName startCell endCell tableData =
     Some (Inr (case (charCodeAt0 startCell, charCodeAt0 endCell,
                parseInt_value (slice startCell 1 (int (length startCell))), parseInt_value (slice endCell 1 (int (length endCell)))) of
            (Some a, Some b, Some r, Some s) \<Rightarrow> column_major ext table (a - 65) (b - 65) (r - 1) (s - 1)
          | _ \<Rightarrow> []))"
proof (cases "charCodeAt0 startCell")
  case None
  with assms(1) show ?thesis
    by (simp add: getRange_def Let_def)
next
  case a: (Some a)
  show ?thesis
  proof (cases "charCodeAt0 endCell")
    case None
    with assms(1) a show ?thesis
      by (simp add: getRange_def Let_def)
  next
    case b: (Some b)
    show ?thesis
    proof (cases "parseInt_value (slice startCell 1 (int (length startCell)))")
      case None
      then have "num_add (parseInt (slice startCell 1 (int (length startCell)))) (- 1) = NaN"
        by (simp add: parseInt_NaN num_add_NaN)
      with assms(1) a b None show ?thesis
        by (simp add: getRange_def Let_def getRange_cols_no_rows num_le_NaN)
    next
      case r: (Some r)
      with assms(2) have rb: "\<bar>r\<bar> < 2 ^ 53" by simp
      have start: "num_add (parseInt (slice startCell 1 (int (length startCell)))) (- 1) = Finite (r - 1)"
        unfolding parseInt_small[OF r rb] num_add_small[OF rb] ..
      show ?thesis
      proof (cases "parseInt_value (slice endCell 1 (int (length endCell)))")
        case None
        then have "num_add (parseInt (slice endCell 1 (int (length endCell)))) (- 1) = NaN"
          by (simp add: parseInt_NaN num_add_NaN)
        with assms(1) a b r None show ?thesis
          by (simp add: getRange_def Let_def getRange_cols_no_rows num_le_NaN)
      next
        case s: (Some s)
        with assms(3) have sb: "\<bar>s\<bar> < 2 ^ 53" by simp
        have end': "num_add (parseInt (slice endCell 1 (int (length endCell)))) (- 1) = Finite (s - 1)"
          unfolding parseInt_small[OF s sb] num_add_small[OF sb] ..
        have "getRange_cols ext table (a - 65) (b - 65) (Finite (r - 1)) (Finite (s - 1)) [] =
              Some ([] @ column_major ext table (a - 65) (b - 65) (r - 1) (s - 1))"
          using rb sb by (intro getRange_cols_eq) simp_all
        with assms(1) a b r s show ?thesis
          by (simp add: getRange_def Let_def start end')
      qed
    qed
  qed
qed

text \<open>
  Claim C2, as amended. For a table that the index holds and boundary coordinates whose
  row numbers, as written, have a magnitude below \<open>2^53\<close>, the range lookup returns,
  without raising, the numbers of the cells of the rectangle in column-major order: the
  columns from the start column to the end column and, in each, the rows from the start
  row to the end row; a cell contributes the number its text parses to and nothing when
  it is missing or parses to \<open>NaN\<close> (\<open>column_major\<close>, \<open>numeric_cell\<close>). A bound that is
  \<open>NaN\<close> gives the empty sequence. The instance below is \<open>table1[A1:B2]\<close> with A1=1,
  A2=2, B1=3, B2=4, which yields 1, 2, 3, 4.
\<close>

theorem getRange_column_major:
  assumes "tableData tableName = Some table"
    and "\<forall>r. parseInt_value (slice startCell 1 (int (length startCell))) = Some r \<longrightarrow> \<bar>r\<bar> < 2 ^ 53"
    and "\<forall>s. parseInt_value (slice endCell 1 (int (length endCell))) = Some s \<longrightarrow> \<bar>s\<bar> < 2 ^ 53"
  shows "getRange ext tableName startCell endCell tableData =
     Some (Inr (case (charCodeAt0 startCell, charCodeAt0 endCell,
                parseInt_value (slice startCell 1 (int (length startCell))),
                parseInt_value (slice endCell 1 (int (length endCell)))) of
            (Some a, Some b, Some r, Some s) \<Rightarrow>
              column_major ext table (a - 65) (b - 65) (r - 1) (s - 1)
          | _ \<Rightarrow> []))"
  using assms by (rule getRange_present)

lemma example_bounds:
  "charCodeAt0 (js ''A1'') = Some 65" "charCodeAt0 (js ''B2'') = Some 66"
  "parseInt_value (slice (js ''A1'') 1 (int (length (js ''A1'')))) = Some 1"
  "parseInt_value (slice (js ''B2'') 1 (int (length (js ''B2'')))) = Some 2"
  by (simp_all add: js_def charCodeAt0_def parseInt_value_def slice_def Let_def is_whitespace_def
      digit_value_def)

lemma example_cells:
  "numeric_cell example_externals example_table 0 0 = [Some 1]"
  "numeric_cell example_externals example_table 0 1 = [Some 2]"
  "numeric_cell example_externals example_table 1 0 = [Some 3]"
  "numeric_cell example_externals example_table 1 1 = [Some 4]"
  by (simp_all add: numeric_cell_def example_externals_def example_table_def js_def
      fromCharCode_def number_toString_def decimal_Number_def)

theorem getRange_column_major_witness:
  "getRange example_externals (js ''table1'') (js ''A1'') (js ''B2'') example_tableData =
   Some (Inr [Some 1, Some 2, Some 3, Some 4])"
proof -
  have present: "example_tableData (js ''table1'') = Some example_table"
    by (simp add: example_tableData_def)
  have upto: "[0..1::int] = [0, 1]"
    by (simp add: upto.simps)
  have b1: "\<forall>r. parseInt_value (slice (js ''A1'') 1 (int (length (js ''A1'')))) = Some r \<longrightarrow> \<bar>r\<bar> < 2 ^ 53"
    by (simp add: example_bounds)
  have b2: "\<forall>s. parseInt_value (slice (js ''B2'') 1 (int (length (js ''B2'')))) = Some s \<longrightarrow> \<bar>s\<bar> < 2 ^ 53"
    by (simp add: example_bounds)
  show ?thesis
    unfolding getRange_column_major[of example_tableData "js ''table1''" example_table
        "js ''A1''" "js ''B2''", OF present b1 b2]
    by (simp add: example_bounds column_major_def upto example_cells)
qed


section \<open>The range lookup: row numbers from \<open>2^53\<close> on\<close>

lemma far_rows:
  "parseInt_value (slice (js ''A9007199254740992'') 1 (int (length (js ''A9007199254740992'')))) =
     Some 9007199254740992"
  "parseInt_value (slice (js ''A9007199254740993'') 1 (int (length (js ''A9007199254740993'')))) =
     Some 9007199254740993"
  "parseInt_value (slice (js ''A9007199254740994'') 1 (int (length (js ''A9007199254740994'')))) =
     Some 9007199254740994"
  "parseInt_value (slice (js ''A9007199254740996'') 1 (int (length (js ''A9007199254740996'')))) =
     Some 9007199254740996"
  "parseInt_value (slice (js ''A18014398509481984'') 1 (int (length (js ''A18014398509481984'')))) =
     Some 18014398509481984"
  "parseInt_value (slice (js ''A18014398509481985'') 1 (int (length (js ''A18014398509481985'')))) =
     Some 18014398509481985"
  by (simp_all add: js_def parseInt_value_def slice_def Let_def is_whitespace_def digit_value_def)

lemma far_numbers:
  "to_number 9007199254740991 = Finite 9007199254740991"
  "to_number 9007199254740992 = Finite 9007199254740992"
  "to_number 9007199254740993 = Finite 9007199254740992"
  "to_number 9007199254740994 = Finite 9007199254740994"
  "to_number 9007199254740995 = Finite 9007199254740996"
  "to_number 9007199254740996 = Finite 9007199254740996"
  "to_number 18014398509481983 = Finite 18014398509481984"
  "to_number 18014398509481984 = Finite 18014398509481984"
  "to_number 18014398509481985 = Finite 18014398509481984"
  by (simp_all add: to_number_def round_double_def bit_length.simps Let_def)

lemma far_start:
  "num_add (parseInt (slice (js ''A9007199254740993'') 1 (int (length (js ''A9007199254740993''))))) (- 1)
     = Finite 9007199254740991"
  "num_add (parseInt (slice (js ''A9007199254740992'') 1 (int (length (js ''A9007199254740992''))))) (- 1)
     = Finite 9007199254740991"
  "num_add (parseInt (slice (js ''A9007199254740994'') 1 (int (length (js ''A9007199254740994''))))) (- 1)
     = Finite 9007199254740992"
  "num_add (parseInt (slice (js ''A9007199254740996'') 1 (int (length (js ''A9007199254740996''))))) (- 1)
     = Finite 9007199254740996"
  "num_add (parseInt (slice (js ''A18014398509481984'') 1 (int (length (js ''A18014398509481984''))))) (- 1)
     = Finite 18014398509481984"
  "num_add (parseInt (slice (js ''A18014398509481985'') 1 (int (length (js ''A18014398509481985''))))) (- 1)
     = Finite 18014398509481984"
  by (simp_all add: parseInt_def far_rows num_add_def far_numbers)

lemma far_col: "charCodeAt0 (js ''A9007199254740992'') = Some 65"
  "charCodeAt0 (js ''A9007199254740993'') = Some 65"
  "charCodeAt0 (js ''A9007199254740994'') = Some 65"
  "charCodeAt0 (js ''A9007199254740996'') = Some 65"
  "charCodeAt0 (js ''A18014398509481984'') = Some 65"
  "charCodeAt0 (js ''A18014398509481985'') = Some 65"
  by (simp_all add: js_def charCodeAt0_def)

lemma far_row_once:
  "getRange_rows example_externals far_table 0 (Finite 9007199254740991) (Finite 9007199254740991) [] =
   Some [Some 7]"
proof -
  have next_row: "num_add (Finite 9007199254740991) 1 = Finite 9007199254740992"
    by (simp add: num_add_def far_numbers)
  have cell: "far_table (fromCharCode (0 + 65) @ num_toString (Finite 9007199254740992)) = Some (js ''7'')"
    by (simp add: far_table_def fromCharCode_def num_toString_def number_toString_def js_def)
  have num: "js_Number example_externals (js ''7'') = Some 7"
    "\<not> js_isNaN example_externals (Some 7)"
    by (simp_all add: example_externals_def decimal_Number_def js_def)
  have stop: "\<not> num_le (Finite 9007199254740992) (Finite 9007199254740991)"
    by (simp add: num_le_def)
  have go: "num_le (Finite 9007199254740991) (Finite 9007199254740991)"
    by (simp add: num_le_def)
  show ?thesis
    apply (subst getRange_rows.simps)
    apply (simp only: go if_True next_row cell option.case num)
    apply (simp add: getRange_rows_stop[OF stop])
    done
qed

lemma far_cols_once:
  "getRange_cols example_externals far_table 0 0 (Finite 9007199254740991) (Finite 9007199254740991) [] =
   Some [Some 7]"
  by (subst getRange_cols.simps) (simp add: far_row_once getRange_cols_reversed)

text \<open>
  From \<open>2^53\<close> on the row numbers are rounded to doubles. The range
  \<open>A9007199254740993:A9007199254740993\<close> has the written row \<open>2^53 + 1\<close>, which \<open>parseInt\<close>
  rounds to \<open>2^53\<close>: the lookup reads the cell of row \<open>2^53\<close>, where the rectangle has
  the cell of row \<open>2^53 + 1\<close>.
\<close>

theorem getRange_reads_rounded_row:
  "getRange example_externals (js ''table1'') (js ''A9007199254740993'') (js ''A9007199254740993'')
     far_tableData = Some (Inr [Some 7]) \<and>
   column_major example_externals far_table 0 0 (9007199254740993 - 1) (9007199254740993 - 1) =
     [Some 8]"
proof
  show "getRange example_externals (js ''table1'') (js ''A9007199254740993'') (js ''A9007199254740993'')
     far_tableData = Some (Inr [Some 7])"
    by (simp add: getRange_def far_tableData_def Let_def far_col far_start far_cols_once)
  show "column_major example_externals far_table 0 0 (9007199254740993 - 1) (9007199254740993 - 1) =
     [Some 8]"
    by (simp add: column_major_def numeric_cell_def far_table_def fromCharCode_def
        number_toString_def js_def example_externals_def decimal_Number_def)
qed

text \<open>
  On the table of the example, the range \<open>A9007199254740994:A9007199254740996\<close> starts the
  inner loop at the row \<open>2^53\<close>, where \<open>row++\<close> rounds back to \<open>2^53\<close>: the lookup does not
  return. So it is with \<open>A18014398509481985:A18014398509481984\<close>, a range whose rows are
  reversed as written: both bounds round to \<open>2^54\<close>.
\<close>

lemma getRange_cols_stuck:
  assumes "num_add row 1 = row" and "num_le row endRow"
  shows "getRange_cols ext table 0 0 row endRow [] = None"
  by (subst getRange_cols.simps) (simp add: getRange_rows_stuck[OF assms])

lemma getRange_no_return:
  "getRange example_externals (js ''table1'') (js ''A9007199254740994'') (js ''A9007199254740996'')
     example_tableData = None"
proof -
  have "num_add (Finite 9007199254740992) 1 = Finite 9007199254740992"
    by (simp add: num_add_def far_numbers)
  moreover have "num_le (Finite 9007199254740992) (Finite 9007199254740996)"
    by (simp add: num_le_def)
  ultimately have "getRange_cols example_externals example_table 0 0
      (Finite 9007199254740992) (Finite 9007199254740996) [] = None"
    by (rule getRange_cols_stuck)
  then show ?thesis
    by (simp add: getRange_def example_tableData_def Let_def far_col far_start)
qed

lemma getRange_reversed_no_return:
  "getRange example_externals (js ''table1'') (js ''A18014398509481985'') (js ''A18014398509481984'')
     example_tableData = None"
proof -
  have "num_add (Finite 18014398509481984) 1 = Finite 18014398509481984"
    by (simp add: num_add_def far_numbers)
  moreover have "num_le (Finite 18014398509481984) (Finite 18014398509481984)"
    by (simp add: num_le_def)
  ultimately have "getRange_cols example_externals example_table 0 0
      (Finite 18014398509481984) (Finite 18014398509481984) [] = None"
    by (rule getRange_cols_stuck)
  then show ?thesis
    by (simp add: getRange_def example_tableData_def Let_def far_col far_start)
qed


section \<open>The range lookup: reversed bounds\<close>

text \<open>
  Claim C10, as amended. On a table that the index holds, a range whose end column
  precedes its start column, or whose end row precedes its start row with both row
  numbers, as written, of a magnitude below \<open>2^53\<close>, yields the empty sequence: the bounds
  are taken as written, no cell is collected and nothing is raised. The instance below is
  \<open>table1[B2:A1]\<close>.
\<close>

theorem getRange_reversed_empty:
  assumes "tableData tableName = Some table"
    and "(\<exists>a b. charCodeAt0 startCell = Some a \<and> charCodeAt0 endCell = Some b \<and> b < a) \<or>
         (\<exists>r s. parseInt_value (slice startCell 1 (int (length startCell))) = Some r \<and>
                parseInt_value (slice endCell 1 (int (length endCell))) = Some s \<and> s < r \<and>
                \<bar>r\<bar> < 2 ^ 53 \<and> \<bar>s\<bar> < 2 ^ 53)"
  shows "getRange ext tableName startCell endCell tableData = Some (Inr [])"
  using assms(2)
proof
  assume "\<exists>a b. charCodeAt0 startCell = Some a \<and> charCodeAt0 endCell = Some b \<and> b < a"
  then obtain a b where "charCodeAt0 startCell = Some a" "charCodeAt0 endCell = Some b" "b < a"
    by blast
  with assms(1) show ?thesis
    by (simp add: getRange_def Let_def getRange_cols_reversed)
next
  assume "\<exists>r s. parseInt_value (slice startCell 1 (int (length startCell))) = Some r \<and>
                parseInt_value (slice endCell 1 (int (length endCell))) = Some s \<and> s < r \<and>
                \<bar>r\<bar> < 2 ^ 53 \<and> \<bar>s\<bar> < 2 ^ 53"
  then obtain r s where r: "parseInt_value (slice startCell 1 (int (length startCell))) = Some r"
    and s: "parseInt_value (slice endCell 1 (int (length endCell))) = Some s"
    and rev: "s < r" and rb: "\<bar>r\<bar> < 2 ^ 53" and sb: "\<bar>s\<bar> < 2 ^ 53"
    by blast
  have start: "num_add (parseInt (slice startCell 1 (int (length startCell)))) (- 1) = Finite (r - 1)"
    unfolding parseInt_small[OF r rb] num_add_small[OF rb] ..
  have end': "num_add (parseInt (slice endCell 1 (int (length endCell)))) (- 1) = Finite (s - 1)"
    unfolding parseInt_small[OF s sb] num_add_small[OF sb] ..
  have "\<not> num_le (Finite (r - 1)) (Finite (s - 1))"
    using rev by (simp add: num_le_def)
  then have "getRange_cols ext table a b (Finite (r - 1)) (Finite (s - 1)) [] = Some []" for a b
    by (rule getRange_cols_no_rows)
  with assms(1) show ?thesis
    by (simp add: getRange_def Let_def start end' split: option.splits)
qed

theorem getRange_reversed_empty_witness:
  "getRange example_externals (js ''table1'') (js ''B2'') (js ''A1'') example_tableData = Some (Inr [])"
proof -
  have present: "example_tableData (js ''table1'') = Some example_table"
    by (simp add: example_tableData_def)
  have "charCodeAt0 (js ''B2'') = Some 66 \<and> charCodeAt0 (js ''A1'') = Some 65 \<and> (65::int) < 66"
    by (simp add: js_def charCodeAt0_def)
  then have "(\<exists>a b. charCodeAt0 (js ''B2'') = Some a \<and> charCodeAt0 (js ''A1'') = Some b \<and> b < a) \<or>
         (\<exists>r s. parseInt_value (slice (js ''B2'') 1 (int (length (js ''B2'')))) = Some r \<and>
                parseInt_value (slice (js ''A1'') 1 (int (length (js ''A1'')))) = Some s \<and> s < r \<and>
                \<bar>r\<bar> < 2 ^ 53 \<and> \<bar>s\<bar> < 2 ^ 53)"
    by blast
  with present show ?thesis
    by (rule getRange_reversed_empty)
qed

text \<open>
  The rows of \<open>A9007199254740993:A9007199254740992\<close> are reversed as written, and both are
  rounded to \<open>2^53\<close>: the loop runs once and the lookup returns the cell of that row.
\<close>

theorem getRange_reversed_rows_rounded:
  "getRange example_externals (js ''table1'') (js ''A9007199254740993'') (js ''A9007199254740992'')
     far_tableData = Some (Inr [Some 7])"
  by (simp add: getRange_def far_tableData_def Let_def far_col far_start far_cols_once)



section \<open>The callback: cache hit, the three branches, the catch\<close>

lemma cache_called [simp]: "expressionCache (called c st) = expressionCache st"
  by (simp add: called_def)

lemma calls_called [simp]: "calls (called c st) = calls st @ [c]"
  by (simp add: called_def)

lemma cache_cache_set [simp]:
  "expressionCache (cache_set e r st) = (expressionCache st)(e \<mapsto> r)"
  by (simp add: cache_set_def)

lemma calls_cache_set [simp]: "calls (cache_set e r st) = calls st"
  by (simp add: cache_set_def)

lemma evaluate_expression_hit:
  "expressionCache st e = Some r \<Longrightarrow> evaluate_expression ext tableData e st = (r, st)"
  by (simp add: evaluate_expression_def)

lemma evaluate_expression_latex:
  assumes "expressionCache st e = None" "startsWith e (js ''$$'')" "endsWith e (js ''$$'')"
  shows "evaluate_expression ext tableData e st =
     (case katex_renderToString ext (trim (slice e 2 (- 2))) False of
        Inl error \<Rightarrow> (error_marker e, called (KatexRender (trim (slice e 2 (- 2)))) st)
      | Inr result \<Rightarrow> (result, cache_set e result (called (KatexRender (trim (slice e 2 (- 2)))) st)))"
  using assms by (simp add: evaluate_expression_def Let_def)

lemma evaluate_expression_table:
  assumes "expressionCache st e = None" "\<not> (startsWith e (js ''$$'') \<and> endsWith e (js ''$$''))"
    "includes_js e (js ''table'')"
  shows "evaluate_expression ext tableData e st =
     (case math_evaluate ext (processTableExpression e tableData)
             (Some (\<lambda>tableName startCell endCell.
                      getRange ext tableName startCell endCell tableData)) of
        Inl error \<Rightarrow>
          (error_marker e, called (MathEvaluate (processTableExpression e tableData)) st)
      | Inr result \<Rightarrow>
          (case (if typeof_number ext result
                 then (case math_round ext result of
                         Inl error \<Rightarrow> Inl error
                       | Inr rounded \<Rightarrow> value_toString ext rounded)
                 else value_toString ext result) of
             Inl error \<Rightarrow>
               (error_marker e, called (MathEvaluate (processTableExpression e tableData)) st)
           | Inr roundedResult \<Rightarrow>
               (roundedResult,
                cache_set e roundedResult
                  (called (MathEvaluate (processTableExpression e tableData)) st))))"
proof -
  have F: "(startsWith e (js ''$$'') \<and> endsWith e (js ''$$'')) = False"
    using assms(2) by simp
  show ?thesis
    using assms(1,3) by (simp add: evaluate_expression_def Let_def F)
qed

lemma evaluate_expression_plain:
  assumes "expressionCache st e = None" "\<not> (startsWith e (js ''$$'') \<and> endsWith e (js ''$$''))"
    "\<not> includes_js e (js ''table'')"
  shows "evaluate_expression ext tableData e st =
     (case math_evaluate ext e None of
        Inl error \<Rightarrow> (error_marker e, called (MathEvaluate e) st)
      | Inr v \<Rightarrow>
          (case math_round ext v of
             Inl error \<Rightarrow> (error_marker e, called (MathEvaluate e) st)
           | Inr rounded \<Rightarrow>
               (case value_toString ext rounded of
                  Inl error \<Rightarrow> (error_marker e, called (MathEvaluate e) st)
                | Inr result \<Rightarrow> (result, cache_set e result (called (MathEvaluate e) st)))))"
proof -
  have F: "(startsWith e (js ''$$'') \<and> endsWith e (js ''$$'')) = False"
    using assms(2) by simp
  show ?thesis
    using assms(1,3) by (simp add: evaluate_expression_def Let_def F)
qed

lemma evaluate_expression_fresh:
  assumes "expressionCache st e = None"
  shows "evaluate_expression ext tableData e st =
     (case fresh_render ext tableData e of
        Inl error \<Rightarrow> (error_marker e, called (fresh_call ext tableData e) st)
      | Inr r \<Rightarrow> (r, cache_set e r (called (fresh_call ext tableData e) st)))"
proof -
  consider (latex) "startsWith e (js ''$$'') \<and> endsWith e (js ''$$'')"
    | (table) "\<not> (startsWith e (js ''$$'') \<and> endsWith e (js ''$$''))" "includes_js e (js ''table'')"
    | (plain) "\<not> (startsWith e (js ''$$'') \<and> endsWith e (js ''$$''))" "\<not> includes_js e (js ''table'')"
    by blast
  then show ?thesis
  proof cases
    case latex
    then have r: "fresh_render ext tableData e = katex_renderToString ext (trim (slice e 2 (- 2))) False"
      and c: "fresh_call ext tableData e = KatexRender (trim (slice e 2 (- 2)))"
      by (simp_all add: fresh_render_def fresh_call_def)
    show ?thesis
      unfolding evaluate_expression_latex[of st e ext tableData, OF assms conjunct1[OF latex] conjunct2[OF latex]] r c
      by simp
  next
    case table
    have F: "(startsWith e (js ''$$'') \<and> endsWith e (js ''$$'')) = False"
      using table(1) by simp
    have c: "fresh_call ext tableData e = MathEvaluate (processTableExpression e tableData)"
      by (simp add: fresh_call_def F table(2))
    have r: "fresh_render ext tableData e =
        (case math_evaluate ext (processTableExpression e tableData)
                (Some (\<lambda>tableName startCell endCell.
                         getRange ext tableName startCell endCell tableData)) of
           Inl error \<Rightarrow> Inl error
         | Inr result \<Rightarrow>
             if typeof_number ext result
             then (case math_round ext result of
                     Inl error \<Rightarrow> Inl error
                   | Inr rounded \<Rightarrow> value_toString ext rounded)
             else value_toString ext result)"
      by (simp add: fresh_render_def F table(2))
    show ?thesis
      unfolding evaluate_expression_table[of st e ext tableData, OF assms table] r c
      by (simp split: sum.splits)
  next
    case plain
    have F: "(startsWith e (js ''$$'') \<and> endsWith e (js ''$$'')) = False"
      using plain(1) by simp
    have c: "fresh_call ext tableData e = MathEvaluate e"
      by (simp add: fresh_call_def F plain(2))
    have r: "fresh_render ext tableData e =
        (case math_evaluate ext e None of
           Inl error \<Rightarrow> Inl error
         | Inr v \<Rightarrow>
             (case math_round ext v of
                Inl error \<Rightarrow> Inl error
              | Inr rounded \<Rightarrow> value_toString ext rounded))"
      by (simp add: fresh_render_def F plain(2))
    show ?thesis
      unfolding evaluate_expression_plain[of st e ext tableData, OF assms plain] r c
      by (simp split: sum.splits)
  qed
qed

section \<open>The evaluation cache\<close>

lemma ex_plain_12:
  "expressionCache st (js ''12'') = None \<Longrightarrow>
   evaluate_expression example_externals tableData (js ''12'') st =
   (js ''12'', cache_set (js ''12'') (js ''12'') (called (MathEvaluate (js ''12'')) st))"
proof -
  assume a: "expressionCache st (js ''12'') = None"
  have b: "\<not> (startsWith (js ''12'') (js ''$$'') \<and> endsWith (js ''12'') (js ''$$''))"
    by (simp add: startsWith_def js_def)
  have c: "\<not> includes_js (js ''12'') (js ''table'')"
    by (simp add: startsWith_def js_def)
  have d: "math_evaluate example_externals (js ''12'') None = Inr 12"
    by (simp add: example_externals_def example_evaluate_def decimal_Number_def js_def)
  have e: "number_toString 12 = js ''12''"
    by (simp add: number_toString_def js_def)
  show ?thesis
    unfolding evaluate_expression_plain[of st "js ''12''" example_externals tableData, OF a b c] d
    by (simp add: example_externals_def e)
qed

lemma ex_fail:
  "expressionCache st (js ''1+'') = None \<Longrightarrow>
   evaluate_expression example_externals tableData (js ''1+'') st =
   (error_marker (js ''1+''), called (MathEvaluate (js ''1+'')) st)"
proof -
  assume a: "expressionCache st (js ''1+'') = None"
  have b: "\<not> (startsWith (js ''1+'') (js ''$$'') \<and> endsWith (js ''1+'') (js ''$$''))"
    by (simp add: startsWith_def js_def)
  have c: "\<not> includes_js (js ''1+'') (js ''table'')"
    by (simp add: startsWith_def js_def)
  have d: "math_evaluate example_externals (js ''1+'') None = Inl (Throw SyntaxError (js ''1+''))"
    by (simp add: example_externals_def example_evaluate_def decimal_Number_def js_def
        quoted_arg_def strip_prefix_def startsWith_def)
  show ?thesis
    unfolding evaluate_expression_plain[of st "js ''1+''" example_externals tableData, OF a b c] d
    by simp
qed

lemma ex_fresh_12:
  "fresh_render example_externals tableData (js ''12'') = Inr (js ''12'')"
  "fresh_call example_externals tableData (js ''12'') = MathEvaluate (js ''12'')"
proof -
  have b: "(startsWith (js ''12'') (js ''$$'') \<and> endsWith (js ''12'') (js ''$$'')) = False"
    by (simp add: startsWith_def js_def)
  have c: "\<not> includes_js (js ''12'') (js ''table'')"
    by (simp add: startsWith_def js_def)
  have d: "math_evaluate example_externals (js ''12'') None = Inr 12"
    by (simp add: example_externals_def example_evaluate_def decimal_Number_def js_def)
  have e: "number_toString 12 = js ''12''"
    by (simp add: number_toString_def js_def)
  show "fresh_render example_externals tableData (js ''12'') = Inr (js ''12'')"
    unfolding fresh_render_def b using c by (simp add: d) (simp add: example_externals_def e)
  show "fresh_call example_externals tableData (js ''12'') = MathEvaluate (js ''12'')"
    unfolding fresh_call_def b using c by simp
qed

lemma ex_fresh_fail:
  "fresh_render example_externals tableData (js ''1+'') = Inl (Throw SyntaxError (js ''1+''))"
  "fresh_call example_externals tableData (js ''1+'') = MathEvaluate (js ''1+'')"
proof -
  have b: "(startsWith (js ''1+'') (js ''$$'') \<and> endsWith (js ''1+'') (js ''$$'')) = False"
    by (simp add: startsWith_def js_def)
  have c: "\<not> includes_js (js ''1+'') (js ''table'')"
    by (simp add: startsWith_def js_def)
  have d: "math_evaluate example_externals (js ''1+'') None = Inl (Throw SyntaxError (js ''1+''))"
    by (simp add: example_externals_def example_evaluate_def decimal_Number_def js_def
        quoted_arg_def strip_prefix_def startsWith_def)
  show "fresh_render example_externals tableData (js ''1+'') = Inl (Throw SyntaxError (js ''1+''))"
    unfolding fresh_render_def b using c by (simp add: d)
  show "fresh_call example_externals tableData (js ''1+'') = MathEvaluate (js ''1+'')"
    unfolding fresh_call_def b using c by simp
qed

text \<open>
  Claim C3, as amended. The callback first looks the exact text of the placeholder up in
  the cache and on a hit returns the stored rendering and calls no collaborator. On a miss
  it calls the evaluator once (\<open>fresh_call\<close>), and what happens next depends on the
  outcome of the \<open>try\<close> block (\<open>fresh_render\<close>): when it succeeds, the rendering is stored
  under the text and returned; when it fails, the error marker is returned and the cache
  is left as it was. Once a rendering is stored, evaluating the same text again returns
  it whatever the evaluator and the table index are, with no further call; after a
  failure the text is still a miss, and evaluating it again calls the evaluator again.
  Evaluating a text leaves the entries of every other text as they were, so a text that
  differs in one character and was not cached before is still a miss. The instances
  below are \<open>12\<close>, which succeeds, and \<open>1+\<close>, which fails.
\<close>

theorem cache_lookup_then_store_success:
  "(case expressionCache st e of
      Some cached \<Rightarrow> evaluate_expression ext tableData e st = (cached, st)
    | None \<Rightarrow>
        (case fresh_render ext tableData e of
           Inr r \<Rightarrow>
             evaluate_expression ext tableData e st =
               (r, cache_set e r (called (fresh_call ext tableData e) st))
         | Inl err \<Rightarrow>
             evaluate_expression ext tableData e st =
               (error_marker e, called (fresh_call ext tableData e) st))) \<and>
   (\<forall>r st1 ext' tableData'.
      evaluate_expression ext tableData e st = (r, st1) \<and> expressionCache st1 e = Some r \<longrightarrow>
      evaluate_expression ext' tableData' e st1 = (r, st1)) \<and>
   (\<forall>err. expressionCache st e = None \<and> fresh_render ext tableData e = Inl err \<longrightarrow>
      expressionCache (snd (evaluate_expression ext tableData e st)) = expressionCache st \<and>
      calls (snd (evaluate_expression ext tableData e
                    (snd (evaluate_expression ext tableData e st)))) =
        calls st @ [fresh_call ext tableData e, fresh_call ext tableData e]) \<and>
   (\<forall>e'. e' \<noteq> e \<longrightarrow>
      expressionCache (snd (evaluate_expression ext tableData e st)) e' = expressionCache st e')"
proof (intro conjI allI impI)
  show "case expressionCache st e of
      Some cached \<Rightarrow> evaluate_expression ext tableData e st = (cached, st)
    | None \<Rightarrow>
        (case fresh_render ext tableData e of
           Inr r \<Rightarrow>
             evaluate_expression ext tableData e st =
               (r, cache_set e r (called (fresh_call ext tableData e) st))
         | Inl err \<Rightarrow>
             evaluate_expression ext tableData e st =
               (error_marker e, called (fresh_call ext tableData e) st))"
  proof (cases "expressionCache st e")
    case None
    show ?thesis
      unfolding None option.case evaluate_expression_fresh[OF None]
      by (simp split: sum.splits)
  next
    case (Some cached)
    then show ?thesis by (simp add: evaluate_expression_hit)
  qed
next
  fix r st1 ext' tableData'
  assume "evaluate_expression ext tableData e st = (r, st1) \<and> expressionCache st1 e = Some r"
  then show "evaluate_expression ext' tableData' e st1 = (r, st1)"
    by (simp add: evaluate_expression_hit)
next
  fix err
  assume a: "expressionCache st e = None \<and> fresh_render ext tableData e = Inl err"
  then have miss: "expressionCache st e = None" and fail: "fresh_render ext tableData e = Inl err"
    by blast+
  have first: "evaluate_expression ext tableData e st =
      (error_marker e, called (fresh_call ext tableData e) st)"
    by (simp add: evaluate_expression_fresh[OF miss] fail)
  have miss1: "expressionCache (called (fresh_call ext tableData e) st) e = None"
    using miss by simp
  show "expressionCache (snd (evaluate_expression ext tableData e st)) = expressionCache st"
    unfolding first by simp
  show "calls (snd (evaluate_expression ext tableData e
                    (snd (evaluate_expression ext tableData e st)))) =
        calls st @ [fresh_call ext tableData e, fresh_call ext tableData e]"
    unfolding first snd_conv evaluate_expression_fresh[OF miss1] fail by simp
next
  fix e' assume ne: "e' \<noteq> e"
  show "expressionCache (snd (evaluate_expression ext tableData e st)) e' = expressionCache st e'"
  proof (cases "expressionCache st e")
    case None
    from ne show ?thesis
      unfolding evaluate_expression_fresh[OF None] by (simp split: sum.splits)
  next
    case (Some r)
    then show ?thesis by (simp add: evaluate_expression_hit)
  qed
qed

theorem cache_lookup_then_store_success_witness:
  "evaluate_expression example_externals example_tableData (js ''12'') empty_state =
     (js ''12'', cache_set (js ''12'') (js ''12'') (called (MathEvaluate (js ''12'')) empty_state)) \<and>
   evaluate_expression example_externals Map.empty (js ''12'')
     (cache_set (js ''12'') (js ''12'') (called (MathEvaluate (js ''12'')) empty_state)) =
     (js ''12'', cache_set (js ''12'') (js ''12'') (called (MathEvaluate (js ''12'')) empty_state)) \<and>
   calls (cache_set (js ''12'') (js ''12'') (called (MathEvaluate (js ''12'')) empty_state)) =
     [MathEvaluate (js ''12'')] \<and>
   expressionCache (cache_set (js ''12'') (js ''12'') (called (MathEvaluate (js ''12'')) empty_state))
     (js ''13'') = None \<and>
   evaluate_expression example_externals example_tableData (js ''1+'') empty_state =
     (error_marker (js ''1+''), called (MathEvaluate (js ''1+'')) empty_state) \<and>
   expressionCache (called (MathEvaluate (js ''1+'')) empty_state) (js ''1+'') = None \<and>
   calls (snd (evaluate_expression example_externals example_tableData (js ''1+'')
                 (called (MathEvaluate (js ''1+'')) empty_state))) =
     [MathEvaluate (js ''1+''), MathEvaluate (js ''1+'')]"
proof -
  let ?st1 = "cache_set (js ''12'') (js ''12'') (called (MathEvaluate (js ''12'')) empty_state)"
  let ?st2 = "called (MathEvaluate (js ''1+'')) empty_state"
  have e0: "expressionCache empty_state e = None" for e
    by (simp add: empty_state_def)
  note t = cache_lookup_then_store_success[where st = empty_state and e = "js ''12''"
      and ext = example_externals and tableData = example_tableData]
  note u = cache_lookup_then_store_success[where st = empty_state and e = "js ''1+''"
      and ext = example_externals and tableData = example_tableData]
  from t have "case expressionCache empty_state (js ''12'') of
      Some cached \<Rightarrow>
        evaluate_expression example_externals example_tableData (js ''12'') empty_state =
          (cached, empty_state)
    | None \<Rightarrow>
        (case fresh_render example_externals example_tableData (js ''12'') of
           Inr r \<Rightarrow>
             evaluate_expression example_externals example_tableData (js ''12'') empty_state =
               (r, cache_set (js ''12'') r
                     (called (fresh_call example_externals example_tableData (js ''12''))
                        empty_state))
         | Inl err \<Rightarrow>
             evaluate_expression example_externals example_tableData (js ''12'') empty_state =
               (error_marker (js ''12''),
                called (fresh_call example_externals example_tableData (js ''12'')) empty_state))"
    by (rule conjunct1)
  then have first: "evaluate_expression example_externals example_tableData (js ''12'') empty_state =
      (js ''12'', ?st1)"
    unfolding e0 ex_fresh_12 by simp
  have stored: "expressionCache ?st1 (js ''12'') = Some (js ''12'')"
    by simp
  have ne: "js ''13'' \<noteq> js ''12''"
    by (simp add: js_def)
  from t
  have again: "\<forall>r st1 (ext' :: (int option, int) externals) tableData'.
      evaluate_expression example_externals example_tableData (js ''12'') empty_state = (r, st1) \<and>
      expressionCache st1 (js ''12'') = Some r \<longrightarrow>
      evaluate_expression ext' tableData' (js ''12'') st1 = (r, st1)"
    and other: "\<forall>e'. e' \<noteq> js ''12'' \<longrightarrow>
      expressionCache (snd (evaluate_expression example_externals example_tableData (js ''12'')
        empty_state)) e' = expressionCache empty_state e'"
    by blast+
  from again first stored
  have second: "evaluate_expression example_externals Map.empty (js ''12'') ?st1 = (js ''12'', ?st1)"
    by blast
  from other ne have "expressionCache ?st1 (js ''13'') = expressionCache empty_state (js ''13'')"
    unfolding first snd_conv by blast
  then have miss: "expressionCache ?st1 (js ''13'') = None"
    by (simp add: e0)
  have log: "calls ?st1 = [MathEvaluate (js ''12'')]"
    by (simp add: empty_state_def)
  from u have "case expressionCache empty_state (js ''1+'') of
      Some cached \<Rightarrow>
        evaluate_expression example_externals example_tableData (js ''1+'') empty_state =
          (cached, empty_state)
    | None \<Rightarrow>
        (case fresh_render example_externals example_tableData (js ''1+'') of
           Inr r \<Rightarrow>
             evaluate_expression example_externals example_tableData (js ''1+'') empty_state =
               (r, cache_set (js ''1+'') r
                     (called (fresh_call example_externals example_tableData (js ''1+''))
                        empty_state))
         | Inl err \<Rightarrow>
             evaluate_expression example_externals example_tableData (js ''1+'') empty_state =
               (error_marker (js ''1+''),
                called (fresh_call example_externals example_tableData (js ''1+'')) empty_state))"
    by (rule conjunct1)
  then have failed: "evaluate_expression example_externals example_tableData (js ''1+'') empty_state =
      (error_marker (js ''1+''), ?st2)"
    unfolding e0 ex_fresh_fail by simp
  from u have "\<forall>err. expressionCache empty_state (js ''1+'') = None \<and>
      fresh_render example_externals example_tableData (js ''1+'') = Inl err \<longrightarrow>
      expressionCache (snd (evaluate_expression example_externals example_tableData (js ''1+'')
                              empty_state)) = expressionCache empty_state \<and>
      calls (snd (evaluate_expression example_externals example_tableData (js ''1+'')
                    (snd (evaluate_expression example_externals example_tableData (js ''1+'')
                            empty_state)))) =
        calls empty_state @ [fresh_call example_externals example_tableData (js ''1+''),
                             fresh_call example_externals example_tableData (js ''1+'')]"
    by blast
  with e0[of "js ''1+''"] ex_fresh_fail(1)[of example_tableData]
  have "expressionCache (snd (evaluate_expression example_externals example_tableData (js ''1+'')
                              empty_state)) = expressionCache empty_state \<and>
      calls (snd (evaluate_expression example_externals example_tableData (js ''1+'')
                    (snd (evaluate_expression example_externals example_tableData (js ''1+'')
                            empty_state)))) =
        calls empty_state @ [fresh_call example_externals example_tableData (js ''1+''),
                             fresh_call example_externals example_tableData (js ''1+'')]"
    by blast
  then have unstored: "expressionCache ?st2 (js ''1+'') = None"
    and twice: "calls (snd (evaluate_expression example_externals example_tableData (js ''1+'') ?st2)) =
      [MathEvaluate (js ''1+''), MathEvaluate (js ''1+'')]"
    unfolding failed snd_conv ex_fresh_fail by (simp_all add: empty_state_def)
  from first second log miss failed unstored twice show ?thesis by blast
qed

text \<open>
  The claim as stated fails on a placeholder whose evaluation fails: for \<open>{1+}\<close> the
  callback returns the error marker, the cache still has no entry for \<open>1+\<close>, and
  evaluating the same text a second time calls \<open>math.evaluate\<close> a second time.
\<close>

theorem error_marker_not_cached:
  "fst (evaluate_expression example_externals example_tableData (js ''1+'') empty_state) =
     error_marker (js ''1+'') \<and>
   expressionCache
     (snd (evaluate_expression example_externals example_tableData (js ''1+'') empty_state))
     (js ''1+'') = None \<and>
   calls (snd (evaluate_expression example_externals example_tableData (js ''1+'')
            (snd (evaluate_expression example_externals example_tableData (js ''1+'')
                    empty_state)))) =
     [MathEvaluate (js ''1+''), MathEvaluate (js ''1+'')]"
proof -
  have e0: "expressionCache empty_state (js ''1+'') = None"
    by (simp add: empty_state_def)
  have e1: "expressionCache (called (MathEvaluate (js ''1+'')) empty_state) (js ''1+'') = None"
    by (simp add: empty_state_def)
  show ?thesis
    unfolding ex_fail[OF e0] snd_conv fst_conv ex_fail[OF e1]
    by (simp add: empty_state_def)
qed


section \<open>LaTeX placeholders\<close>

text \<open>
  Claim C8. For a placeholder whose text starts and ends with \<open>$$\<close>, the callback
  returns the rendering the cache holds for that text, if there is one; otherwise it
  takes the LaTeX branch before it looks for \<open>table\<close>: the text between the delimiters,
  trimmed, goes to \<open>katex.renderToString\<close> with \<open>throwOnError: false\<close>, and what the
  renderer returns is the rendering (and is cached). The callback itself never raises:
  should the renderer throw all the same, the result is the error marker. The instance
  below is \<open>{$$ table^2 $$}\<close>, which contains \<open>table\<close> and is rendered as LaTeX.
\<close>

theorem latex_placeholder:
  assumes "startsWith e (js ''$$'')" and "endsWith e (js ''$$'')"
  shows "evaluate_expression ext tableData e st =
     (case expressionCache st e of
        Some cached \<Rightarrow> (cached, st)
      | None \<Rightarrow>
          (case katex_renderToString ext (trim (slice e 2 (- 2))) False of
             Inl error \<Rightarrow> (error_marker e, called (KatexRender (trim (slice e 2 (- 2)))) st)
           | Inr result \<Rightarrow>
               (result, cache_set e result (called (KatexRender (trim (slice e 2 (- 2)))) st))))"
proof (cases "expressionCache st e")
  case None
  from evaluate_expression_latex[OF None assms] None show ?thesis
    by simp
next
  case (Some cached)
  then show ?thesis
    by (simp add: evaluate_expression_hit)
qed

theorem latex_placeholder_witness:
  "evaluate_expression example_externals example_tableData (js ''$$ table^2 $$'') empty_state =
     (js ''<span class=\"katex\">table^2</span>'',
      cache_set (js ''$$ table^2 $$'') (js ''<span class=\"katex\">table^2</span>'')
        (called (KatexRender (js ''table^2'')) empty_state))"
proof -
  have a: "startsWith (js ''$$ table^2 $$'') (js ''$$'')"
    by (simp add: startsWith_def js_def)
  have b: "endsWith (js ''$$ table^2 $$'') (js ''$$'')"
    by (simp add: endsWith_def js_def)
  have c: "expressionCache empty_state (js ''$$ table^2 $$'') = None"
    by (simp add: empty_state_def)
  have d: "trim (slice (js ''$$ table^2 $$'') 2 (- 2)) = js ''table^2''"
    by (simp add: trim_def slice_def js_def is_whitespace_def)
  show ?thesis
    unfolding latex_placeholder[of "js ''$$ table^2 $$''" example_externals example_tableData
        empty_state, OF a b] c d
    by (simp add: example_externals_def js_def)
qed


section \<open>The scan of the document\<close>

lemma ete_Nil: "evaluateTableExpressions ext [] tableData st = ([], st)"
  by (subst evaluateTableExpressions.simps) simp

lemma ete_match:
  assumes "takeWhile (\<lambda>x. x \<noteq> 125) cs \<noteq> []" "dropWhile (\<lambda>x. x \<noteq> 125) cs \<noteq> []"
  shows "evaluateTableExpressions ext (123 # cs) tableData st =
     (fst (evaluate_expression ext tableData (takeWhile (\<lambda>x. x \<noteq> 125) cs) st) @
      fst (evaluateTableExpressions ext (tl (dropWhile (\<lambda>x. x \<noteq> 125) cs)) tableData
             (snd (evaluate_expression ext tableData (takeWhile (\<lambda>x. x \<noteq> 125) cs) st))),
      snd (evaluateTableExpressions ext (tl (dropWhile (\<lambda>x. x \<noteq> 125) cs)) tableData
             (snd (evaluate_expression ext tableData (takeWhile (\<lambda>x. x \<noteq> 125) cs) st))))"
  using assms
  by (subst evaluateTableExpressions.simps) (simp add: Let_def split_beta)

lemma ete_copy:
  assumes "\<not> (c = 123 \<and> takeWhile (\<lambda>x. x \<noteq> 125) cs \<noteq> [] \<and> dropWhile (\<lambda>x. x \<noteq> 125) cs \<noteq> [])"
  shows "evaluateTableExpressions ext (c # cs) tableData st =
     (c # fst (evaluateTableExpressions ext cs tableData st),
      snd (evaluateTableExpressions ext cs tableData st))"
proof -
  have F: "(c = 123 \<and> takeWhile (\<lambda>x. x \<noteq> 125) cs \<noteq> [] \<and> dropWhile (\<lambda>x. x \<noteq> 125) cs \<noteq> []) = False"
    using assms by blast
  show ?thesis
    by (subst evaluateTableExpressions.simps) (simp only: F list.case if_False Let_def split_beta)
qed


lemma scan_induct [case_names Nil match copy]:
  assumes "P []"
    and "\<And>cs. takeWhile (\<lambda>x. x \<noteq> 125) cs \<noteq> [] \<Longrightarrow> dropWhile (\<lambda>x. x \<noteq> 125) cs \<noteq> [] \<Longrightarrow>
           P (tl (dropWhile (\<lambda>x. x \<noteq> 125) cs)) \<Longrightarrow> P (123 # cs)"
    and "\<And>c cs. \<not> (c = 123 \<and> takeWhile (\<lambda>x. x \<noteq> 125) cs \<noteq> [] \<and>
                    dropWhile (\<lambda>x. x \<noteq> 125) cs \<noteq> []) \<Longrightarrow> P cs \<Longrightarrow> P (c # cs)"
  shows "P (content :: jstring)"
proof (induction "length content" arbitrary: content rule: less_induct)
  case less
  show ?case
  proof (cases content)
    case Nil
    with assms(1) show ?thesis by simp
  next
    case (Cons c cs)
    show ?thesis
    proof (cases "c = 123 \<and> takeWhile (\<lambda>x. x \<noteq> 125) cs \<noteq> [] \<and> dropWhile (\<lambda>x. x \<noteq> 125) cs \<noteq> []")
      case True
      have "length (tl (dropWhile (\<lambda>x. x \<noteq> 125) cs)) < length content"
        using length_dropWhile_le[of "\<lambda>x. x \<noteq> 125" cs] Cons by simp
      then have "P (tl (dropWhile (\<lambda>x. x \<noteq> 125) cs))"
        by (rule less)
      with True assms(2) Cons show ?thesis by simp
    next
      case False
      have "P cs" using Cons by (intro less) simp
      with False assms(3) Cons show ?thesis by blast
    qed
  qed
qed

lemma placeholders_Nil: "placeholders [] = []"
  by (subst placeholders.simps) simp

lemma placeholders_match:
  assumes "takeWhile (\<lambda>x. x \<noteq> 125) cs \<noteq> []" "dropWhile (\<lambda>x. x \<noteq> 125) cs \<noteq> []"
  shows "placeholders (123 # cs) =
     takeWhile (\<lambda>x. x \<noteq> 125) cs # placeholders (tl (dropWhile (\<lambda>x. x \<noteq> 125) cs))"
  using assms by (subst placeholders.simps) simp

lemma placeholders_copy:
  assumes "\<not> (c = 123 \<and> takeWhile (\<lambda>x. x \<noteq> 125) cs \<noteq> [] \<and> dropWhile (\<lambda>x. x \<noteq> 125) cs \<noteq> [])"
  shows "placeholders (c # cs) = placeholders cs"
proof -
  have F: "(c = 123 \<and> takeWhile (\<lambda>x. x \<noteq> 125) cs \<noteq> [] \<and> dropWhile (\<lambda>x. x \<noteq> 125) cs \<noteq> []) = False"
    using assms by blast
  show ?thesis
    by (subst placeholders.simps) (simp only: F list.case if_False)
qed


lemma no_placeholders_identity:
  "placeholders content = [] \<Longrightarrow> evaluateTableExpressions ext content tableData st = (content, st)"
proof (induction content rule: scan_induct)
  case Nil
  show ?case by (rule ete_Nil)
next
  case (match cs)
  then show ?case by (simp add: placeholders_match)
next
  case (copy c cs)
  then show ?case by (simp add: placeholders_copy ete_copy)
qed


lemma includes_js_single: "includes_js s [c] \<longleftrightarrow> c \<in> set s"
proof (induction s)
  case Nil
  show ?case by simp
next
  case (Cons a s)
  have "startsWith (a # s) [c] \<longleftrightarrow> a = c"
    by (simp add: startsWith_def)
  with Cons show ?case by auto
qed

lemma closing_brace: "js ''}'' = [125]"
  by (simp add: js_def)

lemma no_brace_no_placeholders:
  "\<not> includes_js content (js ''}'') \<Longrightarrow> placeholders content = []"
proof (induction content rule: scan_induct)
  case Nil
  show ?case by (rule placeholders_Nil)
next
  case (match cs)
  have "\<not> (\<forall>x \<in> set cs. x \<noteq> 125)"
    using match.hyps(2) dropWhile_eq_Nil_conv[of "\<lambda>x. x \<noteq> 125" cs] by blast
  then have "125 \<in> set cs" by blast
  then have "includes_js (123 # cs) [125]"
    by (simp only: includes_js_single) simp
  with match.prems have False
    unfolding closing_brace by blast
  then show ?case ..
next
  case (copy c cs)
  from copy.prems have "\<not> includes_js cs (js ''}'')"
    by (simp only: includes_js.simps) blast
  with copy.IH have "placeholders cs = []" by blast
  with placeholders_copy[of c cs, OF copy.hyps] show ?case by (rule trans)
qed


section \<open>The refresh cycle: guards and commands\<close>

lemma updateContent_no_brace:
  "\<not> includes_js str (js ''}'') \<Longrightarrow>
   updateContent ext selection str previousContent st = ([], previousContent, st)"
  by (simp add: updateContent_def Let_def)

lemma updateContent_same:
  "updateContent ext selection previousContent previousContent st = ([], previousContent, st)"
  by (simp add: updateContent_def Let_def)

lemma updateContent_evaluates:
  assumes "includes_js str (js ''}'')" "str \<noteq> previousContent"
  shows "updateContent ext selection str previousContent st =
     (if fst (evaluateTableExpressions ext str (snd (parseTables (dom_tables ext) str)) st) \<noteq>
         previousContent
      then ([SetContent (fst (evaluateTableExpressions ext str
                               (snd (parseTables (dom_tables ext) str)) st)),
             SetTextSelection (fst selection) (snd selection)],
            fst (evaluateTableExpressions ext str (snd (parseTables (dom_tables ext) str)) st),
            snd (evaluateTableExpressions ext str (snd (parseTables (dom_tables ext) str)) st))
      else ([SetTextSelection (fst selection) (snd selection)], previousContent,
            snd (evaluateTableExpressions ext str (snd (parseTables (dom_tables ext) str)) st)))"
proof -
  have p: "fst (parseTables (dom_tables ext) str) = str"
    by (simp add: parseTables_def)
  show ?thesis
    using assms by (simp add: updateContent_def Let_def split_beta p)
qed


lemma ex_scan_12:
  "evaluateTableExpressions example_externals (js ''{12}'') tableData empty_state =
   (js ''12'', cache_set (js ''12'') (js ''12'') (called (MathEvaluate (js ''12'')) empty_state))"
proof -
  have s: "js ''{12}'' = 123 # js ''12}''"
    by (simp add: js_def)
  have t: "takeWhile (\<lambda>x. x \<noteq> 125) (js ''12}'') = js ''12''"
    and d: "dropWhile (\<lambda>x. x \<noteq> 125) (js ''12}'') = [125]"
    by (simp_all add: js_def)
  have e: "expressionCache empty_state (js ''12'') = None"
    by (simp add: empty_state_def)
  have "takeWhile (\<lambda>x. x \<noteq> 125) (js ''12}'') \<noteq> []" "dropWhile (\<lambda>x. x \<noteq> 125) (js ''12}'') \<noteq> []"
    unfolding t d by (simp_all add: js_def)
  from ete_match[OF this, of example_externals tableData empty_state]
  show ?thesis
    unfolding s t d ex_plain_12[OF e] by (simp add: ete_Nil)
qed

lemma ex_cycle_12:
  "updateContent example_externals (5, 5) (js ''{12}'') [] empty_state =
   ([SetContent (js ''12''), SetTextSelection 5 5], js ''12'',
    cache_set (js ''12'') (js ''12'') (called (MathEvaluate (js ''12'')) empty_state))"
proof -
  have inc: "includes_js (js ''{12}'') (js ''}'')"
    by (simp add: js_def startsWith_def)
  have ne: "js ''{12}'' \<noteq> []" "js ''12'' \<noteq> []"
    by (simp_all add: js_def)
  show ?thesis
    unfolding updateContent_evaluates[of "js ''{12}''" "[]" example_externals "(5, 5)" empty_state,
        OF inc ne(1)] ex_scan_12
    using ne(2) by simp
qed

text \<open>
  Claim C7. The cycle reads the selection offsets before anything else. Whenever it
  replaces the content, the commands it issues are exactly the replacement followed by
  \<open>setTextSelection\<close> with the offsets read at the start, unchanged, whatever the length
  of the new content. The instance below has the selection (5, 5) and the document
  \<open>{12}\<close>, which the cycle replaces by the shorter \<open>12\<close>.
\<close>

theorem selection_restored_after_replacement:
  assumes "SetContent x \<in> set (fst (updateContent ext (a, b) str previousContent st))"
  shows "fst (updateContent ext (a, b) str previousContent st) =
         [SetContent x, SetTextSelection a b]"
proof (cases "includes_js str (js ''}'') \<and> str \<noteq> previousContent")
  case True
  then have inc: "includes_js str (js ''}'')" and ne: "str \<noteq> previousContent" by blast+
  from assms show ?thesis
    unfolding updateContent_evaluates[of str previousContent ext "(a, b)" st, OF inc ne]
    by (simp split: if_splits)
next
  case False
  then have "fst (updateContent ext (a, b) str previousContent st) = []"
    using updateContent_no_brace[of str ext "(a, b)" previousContent st]
      updateContent_same[of ext "(a, b)" previousContent st]
    by auto
  with assms show ?thesis by simp
qed

theorem selection_restored_after_replacement_witness:
  "SetContent (js ''12'') \<in>
     set (fst (updateContent example_externals (5, 5) (js ''{12}'') [] empty_state)) \<and>
   fst (updateContent example_externals (5, 5) (js ''{12}'') [] empty_state) =
     [SetContent (js ''12''), SetTextSelection 5 5] \<and>
   length (js ''12'') \<noteq> length (js ''{12}'')"
proof -
  have m: "SetContent (js ''12'') \<in>
     set (fst (updateContent example_externals (5, 5) (js ''{12}'') [] empty_state))"
    by (simp add: ex_cycle_12)
  from selection_restored_after_replacement[OF m] m show ?thesis
    by (simp add: js_def)
qed

text \<open>
  Claim C6. On a snapshot with no closing brace the cycle issues no command, leaves
  \<open>previousContent\<close> as it is and does not touch the evaluator's state: tables are not
  indexed and nothing is scanned or evaluated. Such a snapshot has no placeholder. On
  any snapshot with no placeholder the evaluator's state stays as it is and the only
  content the cycle can hand to \<open>setContent\<close> is the snapshot itself, so the document's
  content is not changed.
\<close>

theorem no_closing_brace_no_replacement:
  "(\<not> includes_js str (js ''}'') \<longrightarrow>
      updateContent ext selection str previousContent st = ([], previousContent, st) \<and>
      placeholders str = []) \<and>
   (placeholders str = [] \<longrightarrow>
      (\<forall>x. SetContent x \<in> set (fst (updateContent ext selection str previousContent st)) \<longrightarrow>
           x = str) \<and>
      snd (snd (updateContent ext selection str previousContent st)) = st)"
proof (intro conjI impI allI)
  assume "\<not> includes_js str (js ''}'')"
  then show "updateContent ext selection str previousContent st = ([], previousContent, st)"
    by (rule updateContent_no_brace)
next
  assume "\<not> includes_js str (js ''}'')"
  then show "placeholders str = []"
    by (rule no_brace_no_placeholders)
next
  fix x
  assume np: "placeholders str = []"
    and x: "SetContent x \<in> set (fst (updateContent ext selection str previousContent st))"
  show "x = str"
  proof (cases "includes_js str (js ''}'') \<and> str \<noteq> previousContent")
    case True
    then have inc: "includes_js str (js ''}'')" and ne: "str \<noteq> previousContent" by blast+
    from x show ?thesis
      unfolding updateContent_evaluates[of str previousContent ext selection st, OF inc ne]
        no_placeholders_identity[of str ext _ st, OF np]
      by (simp split: if_splits)
  next
    case False
    then have "fst (updateContent ext selection str previousContent st) = []"
      using updateContent_no_brace[of str ext selection previousContent st]
        updateContent_same[of ext selection previousContent st]
      by auto
    with x show ?thesis by simp
  qed
next
  assume np: "placeholders str = []"
  show "snd (snd (updateContent ext selection str previousContent st)) = st"
  proof (cases "includes_js str (js ''}'') \<and> str \<noteq> previousContent")
    case True
    then have inc: "includes_js str (js ''}'')" and ne: "str \<noteq> previousContent" by blast+
    show ?thesis
      unfolding updateContent_evaluates[of str previousContent ext selection st, OF inc ne]
        no_placeholders_identity[of str ext _ st, OF np]
      by simp
  next
    case False
    then show ?thesis
      using updateContent_no_brace[of str ext selection previousContent st]
        updateContent_same[of ext selection previousContent st]
      by auto
  qed
qed

theorem no_closing_brace_no_replacement_witness:
  "updateContent example_externals (5, 5) (js ''<p>2+2</p>'') (js ''<p>2+</p>'') empty_state =
     ([], js ''<p>2+</p>'', empty_state) \<and>
   snd (snd (updateContent example_externals (5, 5) (js ''a}'') [] empty_state)) = empty_state"
proof -
  have nb: "\<not> includes_js (js ''<p>2+2</p>'') (js ''}'')"
    by (simp add: js_def startsWith_def)
  have s: "js ''a}'' = [97, 125]"
    by (simp add: js_def)
  have "placeholders [125 :: code_unit] = []"
    using placeholders_copy[of 125 "[]"] by (simp add: placeholders_Nil)
  then have np: "placeholders (js ''a}'') = []"
    unfolding s using placeholders_copy[of 97 "[125]"] by simp
  from no_closing_brace_no_replacement[of "js ''<p>2+2</p>''" example_externals "(5, 5)"
      "js ''<p>2+</p>''" empty_state] nb
  have first: "updateContent example_externals (5, 5) (js ''<p>2+2</p>'') (js ''<p>2+</p>'')
      empty_state = ([], js ''<p>2+</p>'', empty_state)"
    by blast
  from no_closing_brace_no_replacement[of "js ''a}''" example_externals "(5, 5)" "[]" empty_state] np
  have "snd (snd (updateContent example_externals (5, 5) (js ''a}'') [] empty_state)) = empty_state"
    by blast
  with first show ?thesis by blast
qed


section \<open>Evaluating again with a grown cache\<close>

lemma grown_from_refl: "grown_from ext tableData st st"
  by (simp add: grown_from_def split: option.splits)

lemma grown_fromD1:
  "grown_from ext tableData st st' \<Longrightarrow> expressionCache st e = Some r \<Longrightarrow>
   expressionCache st' e = Some r"
  unfolding grown_from_def by (erule allE[of _ e]) simp

lemma grown_fromD2:
  "grown_from ext tableData st st' \<Longrightarrow> expressionCache st e = None \<Longrightarrow>
   expressionCache st' e = Some r \<Longrightarrow> fresh_render ext tableData e = Inr r"
  unfolding grown_from_def by (erule allE[of _ e]) simp

lemma grown_fromI:
  assumes "\<And>e r. expressionCache st e = Some r \<Longrightarrow> expressionCache st' e = Some r"
    and "\<And>e r. expressionCache st e = None \<Longrightarrow> expressionCache st' e = Some r \<Longrightarrow>
           fresh_render ext tableData e = Inr r"
  shows "grown_from ext tableData st st'"
  unfolding grown_from_def using assms by (auto split: option.splits)


lemma grown_from_cong:
  assumes a: "expressionCache a' = expressionCache a" and b: "expressionCache b' = expressionCache b"
    and g: "grown_from ext tableData a b"
  shows "grown_from ext tableData a' b'"
  using g unfolding grown_from_def a b .

lemma grown_step:
  assumes g: "grown_from ext tableData st0 st"
  shows "grown_from ext tableData st0 (snd (evaluate_expression ext tableData e st))"
proof (cases "expressionCache st e")
  case (Some r)
  with g show ?thesis by (simp add: evaluate_expression_hit)
next
  case None
  show ?thesis
  proof (cases "fresh_render ext tableData e")
    case (Inl err)
    have "expressionCache (snd (evaluate_expression ext tableData e st)) = expressionCache st"
      by (simp add: evaluate_expression_fresh[OF None] Inl)
    from refl this g show ?thesis by (rule grown_from_cong)
  next
    case (Inr r)
    have c: "expressionCache (snd (evaluate_expression ext tableData e st)) =
             (expressionCache st)(e \<mapsto> r)"
      by (simp add: evaluate_expression_fresh[OF None] Inr)
    show ?thesis
    proof (rule grown_fromI)
      fix x rx assume "expressionCache st0 x = Some rx"
      with g have "expressionCache st x = Some rx" by (rule grown_fromD1)
      with None show "expressionCache (snd (evaluate_expression ext tableData e st)) x = Some rx"
        unfolding c by auto
    next
      fix x rx
      assume a: "expressionCache st0 x = None"
        and b: "expressionCache (snd (evaluate_expression ext tableData e st)) x = Some rx"
      show "fresh_render ext tableData x = Inr rx"
      proof (cases "x = e")
        case True
        with b c Inr show ?thesis by simp
      next
        case False
        with b c have "expressionCache st x = Some rx" by simp
        with g a show ?thesis by (rule grown_fromD2)
      qed
    qed
  qed
qed

lemma sim_expression:
  assumes g: "grown_from ext tableData st1 st2"
  shows "fst (evaluate_expression ext tableData e st1) = fst (evaluate_expression ext tableData e st2) \<and>
         grown_from ext tableData (snd (evaluate_expression ext tableData e st1))
           (snd (evaluate_expression ext tableData e st2))"
proof (cases "expressionCache st1 e")
  case (Some r)
  with g have "expressionCache st2 e = Some r" by (rule grown_fromD1)
  with Some g show ?thesis by (simp add: evaluate_expression_hit)
next
  case n1: None
  show ?thesis
  proof (cases "expressionCache st2 e")
    case (Some r)
    with g n1 have fr: "fresh_render ext tableData e = Inr r" by (rule grown_fromD2)
    have e1: "evaluate_expression ext tableData e st1 =
        (r, cache_set e r (called (fresh_call ext tableData e) st1))"
      by (simp add: evaluate_expression_fresh[OF n1] fr)
    have e2: "evaluate_expression ext tableData e st2 = (r, st2)"
      using Some by (rule evaluate_expression_hit)
    have "grown_from ext tableData (cache_set e r (called (fresh_call ext tableData e) st1)) st2"
    proof (rule grown_fromI)
      fix x rx
      assume "expressionCache (cache_set e r (called (fresh_call ext tableData e) st1)) x = Some rx"
      then have "(x = e \<and> rx = r) \<or> expressionCache st1 x = Some rx"
        by (auto split: if_splits)
      then show "expressionCache st2 x = Some rx"
        using Some grown_fromD1[OF g] by blast
    next
      fix x rx
      assume "expressionCache (cache_set e r (called (fresh_call ext tableData e) st1)) x = None"
        and b: "expressionCache st2 x = Some rx"
      then have "expressionCache st1 x = None" by (auto split: if_splits)
      with g show "fresh_render ext tableData x = Inr rx" using b by (rule grown_fromD2)
    qed
    then show ?thesis by (simp add: e1 e2)
  next
    case n2: None
    show ?thesis
    proof (cases "fresh_render ext tableData e")
      case (Inl err)
      have "evaluate_expression ext tableData e st1 =
            (error_marker e, called (fresh_call ext tableData e) st1)"
        "evaluate_expression ext tableData e st2 =
            (error_marker e, called (fresh_call ext tableData e) st2)"
        by (simp_all add: evaluate_expression_fresh[OF n1] evaluate_expression_fresh[OF n2] Inl)
      moreover have "grown_from ext tableData (called (fresh_call ext tableData e) st1)
          (called (fresh_call ext tableData e) st2)"
        using cache_called cache_called g by (rule grown_from_cong)
      ultimately show ?thesis by simp
    next
      case (Inr r)
      have e1: "evaluate_expression ext tableData e st1 =
            (r, cache_set e r (called (fresh_call ext tableData e) st1))"
        and e2: "evaluate_expression ext tableData e st2 =
            (r, cache_set e r (called (fresh_call ext tableData e) st2))"
        by (simp_all add: evaluate_expression_fresh[OF n1] evaluate_expression_fresh[OF n2] Inr)
      have "grown_from ext tableData (cache_set e r (called (fresh_call ext tableData e) st1))
              (cache_set e r (called (fresh_call ext tableData e) st2))"
      proof (rule grown_fromI)
        fix x rx
        assume "expressionCache (cache_set e r (called (fresh_call ext tableData e) st1)) x = Some rx"
        then have "(x = e \<and> rx = r) \<or> (x \<noteq> e \<and> expressionCache st1 x = Some rx)"
          by (auto split: if_splits)
        then show "expressionCache (cache_set e r (called (fresh_call ext tableData e) st2)) x = Some rx"
          using grown_fromD1[OF g] by auto
      next
        fix x rx
        assume "expressionCache (cache_set e r (called (fresh_call ext tableData e) st1)) x = None"
          and "expressionCache (cache_set e r (called (fresh_call ext tableData e) st2)) x = Some rx"
        then have "expressionCache st1 x = None" "expressionCache st2 x = Some rx"
          by (auto split: if_splits)
        with g show "fresh_render ext tableData x = Inr rx" by (rule grown_fromD2)
      qed
      then show ?thesis by (simp add: e1 e2)
    qed
  qed
qed

lemma grown_scan:
  "grown_from ext tableData st0 st \<Longrightarrow>
   grown_from ext tableData st0 (snd (evaluateTableExpressions ext content tableData st))"
proof (induction content arbitrary: st rule: scan_induct)
  case Nil
  then show ?case by (simp add: ete_Nil)
next
  case (match cs)
  from match.prems have "grown_from ext tableData st0
      (snd (evaluate_expression ext tableData (takeWhile (\<lambda>x. x \<noteq> 125) cs) st))"
    by (rule grown_step)
  then show ?case
    unfolding ete_match[OF match.hyps] snd_conv by (rule match.IH)
next
  case (copy c cs)
  from copy.prems show ?case
    unfolding ete_copy[OF copy.hyps] snd_conv by (rule copy.IH)
qed

lemma sim_scan:
  "grown_from ext tableData st1 st2 \<Longrightarrow>
   fst (evaluateTableExpressions ext content tableData st1) =
   fst (evaluateTableExpressions ext content tableData st2) \<and>
   grown_from ext tableData (snd (evaluateTableExpressions ext content tableData st1))
     (snd (evaluateTableExpressions ext content tableData st2))"
proof (induction content arbitrary: st1 st2 rule: scan_induct)
  case Nil
  then show ?case by (simp add: ete_Nil)
next
  case (match cs)
  let ?e = "takeWhile (\<lambda>x. x \<noteq> 125) cs"
  from sim_expression[OF match.prems, of ?e]
  have f: "fst (evaluate_expression ext tableData ?e st1) = fst (evaluate_expression ext tableData ?e st2)"
    and g: "grown_from ext tableData (snd (evaluate_expression ext tableData ?e st1))
              (snd (evaluate_expression ext tableData ?e st2))"
    by blast+
  from match.IH[OF g] f show ?case
    unfolding ete_match[OF match.hyps] fst_conv snd_conv by simp
next
  case (copy c cs)
  from copy.IH[OF copy.prems] show ?case
    unfolding ete_copy[OF copy.hyps] fst_conv snd_conv by simp
qed

lemma cache_kept_scan:
  "expressionCache st e = Some r \<Longrightarrow>
   expressionCache (snd (evaluateTableExpressions ext content tableData st)) e = Some r"
proof -
  have "grown_from ext tableData st (snd (evaluateTableExpressions ext content tableData st))"
    by (rule grown_scan) (rule grown_from_refl)
  then show "expressionCache st e = Some r \<Longrightarrow>
   expressionCache (snd (evaluateTableExpressions ext content tableData st)) e = Some r"
    by (rule grown_fromD1)
qed


section \<open>The examples, evaluated\<close>

lemma ex_process_table1:
  "processTableExpression (js ''sum(table1[A1:B2])'') tableData =
   js ''sum(getRange(\"table1\", \"A1\", \"B2\"))''"
  by code_simp

lemma ex_process_table9:
  "processTableExpression (js ''sum(table9[A1:B2])'') tableData =
   js ''sum(getRange(\"table9\", \"A1\", \"B2\"))''"
  by code_simp

lemma ex_evaluate_table1:
  "example_evaluate (js ''sum(getRange(\"table1\", \"A1\", \"B2\"))'') (Some g) =
   (case g (js ''table1'') (js ''A1'') (js ''B2'') of
      None \<Rightarrow> Inl (Throw RangeError (js ''no value''))
    | Some (Inl err) \<Rightarrow> Inl err
    | Some (Inr vs) \<Rightarrow> Inr (sum_list (map (\<lambda>v. case v of None \<Rightarrow> 0 | Some n \<Rightarrow> n) vs)))"
  by code_simp

lemma ex_evaluate_table9:
  "example_evaluate (js ''sum(getRange(\"table9\", \"A1\", \"B2\"))'') (Some g) =
   (case g (js ''table9'') (js ''A1'') (js ''B2'') of
      None \<Rightarrow> Inl (Throw RangeError (js ''no value''))
    | Some (Inl err) \<Rightarrow> Inl err
    | Some (Inr vs) \<Rightarrow> Inr (sum_list (map (\<lambda>v. case v of None \<Rightarrow> 0 | Some n \<Rightarrow> n) vs)))"
  by code_simp

lemma ex_not_latex:
  "\<not> (startsWith (js ''sum(table1[A1:B2])'') (js ''$$'') \<and> endsWith (js ''sum(table1[A1:B2])'') (js ''$$''))"
  "\<not> (startsWith (js ''sum(table9[A1:B2])'') (js ''$$'') \<and> endsWith (js ''sum(table9[A1:B2])'') (js ''$$''))"
  by code_simp+

lemma ex_includes_table:
  "includes_js (js ''sum(table1[A1:B2])'') (js ''table'')"
  "includes_js (js ''sum(table9[A1:B2])'') (js ''table'')"
  by code_simp+

lemma ex_getRange_A1_B2:
  assumes "tableData tableName = Some table"
  shows "getRange example_externals tableName (js ''A1'') (js ''B2'') tableData =
     Some (Inr (numeric_cell example_externals table 0 0 @ numeric_cell example_externals table 0 1 @
                numeric_cell example_externals table 1 0 @ numeric_cell example_externals table 1 1))"
proof -
  have upto: "[0..1::int] = [0, 1]"
    by (simp add: upto.simps)
  have b1: "\<forall>r. parseInt_value (slice (js ''A1'') 1 (int (length (js ''A1'')))) = Some r \<longrightarrow> \<bar>r\<bar> < 2 ^ 53"
    by (simp add: example_bounds)
  have b2: "\<forall>s. parseInt_value (slice (js ''B2'') 1 (int (length (js ''B2'')))) = Some s \<longrightarrow> \<bar>s\<bar> < 2 ^ 53"
    by (simp add: example_bounds)
  show ?thesis
    unfolding getRange_present[of tableData tableName table "js ''A1''" "js ''B2''", OF assms b1 b2]
    by (simp add: example_bounds column_major_def upto)
qed

lemma example_cells_edited:
  "numeric_cell example_externals (example_table(js ''A1'' \<mapsto> js ''5'')) 0 0 = [Some 5]"
  "numeric_cell example_externals (example_table(js ''A1'' \<mapsto> js ''5'')) 0 1 = [Some 2]"
  "numeric_cell example_externals (example_table(js ''A1'' \<mapsto> js ''5'')) 1 0 = [Some 3]"
  "numeric_cell example_externals (example_table(js ''A1'' \<mapsto> js ''5'')) 1 1 = [Some 4]"
  by (simp_all add: numeric_cell_def example_externals_def example_table_def js_def
      fromCharCode_def number_toString_def decimal_Number_def)

lemma ex_getRange_table1:
  "getRange example_externals (js ''table1'') (js ''A1'') (js ''B2'') example_tableData =
     Some (Inr [Some 1, Some 2, Some 3, Some 4])"
  "getRange example_externals (js ''table1'') (js ''A1'') (js ''B2'') example_tableData_edited =
     Some (Inr [Some 5, Some 2, Some 3, Some 4])"
  "getRange example_externals (js ''table9'') (js ''A1'') (js ''B2'') example_tableData9 =
     Some (Inr [Some 1, Some 2, Some 3, Some 4])"
proof -
  have "example_tableData (js ''table1'') = Some example_table"
    by (simp add: example_tableData_def)
  from ex_getRange_A1_B2[of example_tableData "js ''table1''" example_table, OF this]
  show "getRange example_externals (js ''table1'') (js ''A1'') (js ''B2'') example_tableData =
     Some (Inr [Some 1, Some 2, Some 3, Some 4])"
    by (simp add: example_cells)
  have "example_tableData_edited (js ''table1'') = Some (example_table(js ''A1'' \<mapsto> js ''5''))"
    by (simp add: example_tableData_edited_def)
  from ex_getRange_A1_B2[of example_tableData_edited "js ''table1''"
      "example_table(js ''A1'' \<mapsto> js ''5'')", OF this]
  show "getRange example_externals (js ''table1'') (js ''A1'') (js ''B2'') example_tableData_edited =
     Some (Inr [Some 5, Some 2, Some 3, Some 4])"
    by (simp add: example_cells_edited)
  have "example_tableData9 (js ''table9'') = Some example_table"
    by (simp add: example_tableData9_def)
  from ex_getRange_A1_B2[of example_tableData9 "js ''table9''" example_table, OF this]
  show "getRange example_externals (js ''table9'') (js ''A1'') (js ''B2'') example_tableData9 =
     Some (Inr [Some 1, Some 2, Some 3, Some 4])"
    by (simp add: example_cells)
qed


lemma ex_externals_fields:
  "math_evaluate example_externals = example_evaluate"
  "typeof_number example_externals v = True"
  "math_round example_externals v = Inr v"
  "value_toString example_externals v = Inr (number_toString v)"
  by (simp_all add: example_externals_def)

lemma ex_sum_table1:
  assumes "expressionCache st (js ''sum(table1[A1:B2])'') = None"
  shows "evaluate_expression example_externals tableData (js ''sum(table1[A1:B2])'') st =
     (case getRange example_externals (js ''table1'') (js ''A1'') (js ''B2'') tableData of
        None \<Rightarrow>
          (error_marker (js ''sum(table1[A1:B2])''),
           called (MathEvaluate (js ''sum(getRange(\"table1\", \"A1\", \"B2\"))'')) st)
      | Some (Inl err) \<Rightarrow>
          (error_marker (js ''sum(table1[A1:B2])''),
           called (MathEvaluate (js ''sum(getRange(\"table1\", \"A1\", \"B2\"))'')) st)
      | Some (Inr vs) \<Rightarrow>
          (number_toString (sum_list (map (\<lambda>v. case v of None \<Rightarrow> 0 | Some n \<Rightarrow> n) vs)),
           cache_set (js ''sum(table1[A1:B2])'')
             (number_toString (sum_list (map (\<lambda>v. case v of None \<Rightarrow> 0 | Some n \<Rightarrow> n) vs)))
             (called (MathEvaluate (js ''sum(getRange(\"table1\", \"A1\", \"B2\"))'')) st)))"
  unfolding evaluate_expression_table[of st "js ''sum(table1[A1:B2])''" example_externals tableData,
      OF assms ex_not_latex(1) ex_includes_table(1)] ex_process_table1 ex_externals_fields
    ex_evaluate_table1
  by (simp split: sum.splits option.splits)

lemma ex_sum_table9:
  assumes "expressionCache st (js ''sum(table9[A1:B2])'') = None"
  shows "evaluate_expression example_externals tableData (js ''sum(table9[A1:B2])'') st =
     (case getRange example_externals (js ''table9'') (js ''A1'') (js ''B2'') tableData of
        None \<Rightarrow>
          (error_marker (js ''sum(table9[A1:B2])''),
           called (MathEvaluate (js ''sum(getRange(\"table9\", \"A1\", \"B2\"))'')) st)
      | Some (Inl err) \<Rightarrow>
          (error_marker (js ''sum(table9[A1:B2])''),
           called (MathEvaluate (js ''sum(getRange(\"table9\", \"A1\", \"B2\"))'')) st)
      | Some (Inr vs) \<Rightarrow>
          (number_toString (sum_list (map (\<lambda>v. case v of None \<Rightarrow> 0 | Some n \<Rightarrow> n) vs)),
           cache_set (js ''sum(table9[A1:B2])'')
             (number_toString (sum_list (map (\<lambda>v. case v of None \<Rightarrow> 0 | Some n \<Rightarrow> n) vs)))
             (called (MathEvaluate (js ''sum(getRange(\"table9\", \"A1\", \"B2\"))'')) st)))"
  unfolding evaluate_expression_table[of st "js ''sum(table9[A1:B2])''" example_externals tableData,
      OF assms ex_not_latex(2) ex_includes_table(2)] ex_process_table9 ex_externals_fields
    ex_evaluate_table9
  by (simp split: sum.splits option.splits)

lemma ex_numbers: "number_toString 10 = js ''10''" "number_toString 14 = js ''14''"
  by code_simp+

lemma ex_empty_miss: "expressionCache empty_state e = None"
  by (simp add: empty_state_def)

section \<open>Cached renderings and the table index\<close>

text \<open>
  Claim C9. Once a placeholder whose text contains \<open>table\<close> has been evaluated and its
  rendering cached, evaluating the same text returns that rendering and leaves the state
  as it is, whatever the table index and the collaborators are at that time: directly
  afterwards, and after any further pass over any document. The instance below evaluates
  \<open>sum(table1[A1:B2])\<close> to 10, then changes cell A1 from 1 to 5: the second evaluation
  still gives 10, where an empty cache would give 14.
\<close>

theorem cached_rendering_ignores_tables:
  assumes "includes_js e (js ''table'')"
    and "evaluate_expression ext tableData e st = (r, st1)"
    and "expressionCache st1 e = Some r"
  shows "evaluate_expression ext' tableData' e st1 = (r, st1) \<and>
         evaluate_expression ext' tableData' e
           (snd (evaluateTableExpressions ext'' content tableData'' st1)) =
         (r, snd (evaluateTableExpressions ext'' content tableData'' st1))"
proof
  from assms(3) show "evaluate_expression ext' tableData' e st1 = (r, st1)"
    by (rule evaluate_expression_hit)
next
  from assms(3)
  have "expressionCache (snd (evaluateTableExpressions ext'' content tableData'' st1)) e = Some r"
    by (rule cache_kept_scan)
  then show "evaluate_expression ext' tableData' e
           (snd (evaluateTableExpressions ext'' content tableData'' st1)) =
         (r, snd (evaluateTableExpressions ext'' content tableData'' st1))"
    by (rule evaluate_expression_hit)
qed

theorem cached_rendering_ignores_tables_witness:
  "evaluate_expression example_externals example_tableData (js ''sum(table1[A1:B2])'') empty_state =
     (js ''10'',
      cache_set (js ''sum(table1[A1:B2])'') (js ''10'')
        (called (MathEvaluate (js ''sum(getRange(\"table1\", \"A1\", \"B2\"))'')) empty_state)) \<and>
   evaluate_expression example_externals example_tableData_edited (js ''sum(table1[A1:B2])'')
     (cache_set (js ''sum(table1[A1:B2])'') (js ''10'')
        (called (MathEvaluate (js ''sum(getRange(\"table1\", \"A1\", \"B2\"))'')) empty_state)) =
     (js ''10'',
      cache_set (js ''sum(table1[A1:B2])'') (js ''10'')
        (called (MathEvaluate (js ''sum(getRange(\"table1\", \"A1\", \"B2\"))'')) empty_state)) \<and>
   fst (evaluate_expression example_externals example_tableData_edited (js ''sum(table1[A1:B2])'')
          empty_state) = js ''14''"
proof -
  let ?e = "js ''sum(table1[A1:B2])''"
  let ?st1 = "cache_set ?e (js ''10'')
        (called (MathEvaluate (js ''sum(getRange(\"table1\", \"A1\", \"B2\"))'')) empty_state)"
  have first: "evaluate_expression example_externals example_tableData ?e empty_state = (js ''10'', ?st1)"
    unfolding ex_sum_table1[OF ex_empty_miss] ex_getRange_table1 by (simp add: ex_numbers)
  have stored: "expressionCache ?st1 ?e = Some (js ''10'')"
    by simp
  have fresh: "fst (evaluate_expression example_externals example_tableData_edited ?e empty_state) =
      js ''14''"
    unfolding ex_sum_table1[OF ex_empty_miss] ex_getRange_table1 by (simp add: ex_numbers)
  from cached_rendering_ignores_tables[of ?e example_externals example_tableData empty_state
      "js ''10''" ?st1 example_externals example_tableData_edited, OF ex_includes_table(1) first stored]
  have "evaluate_expression example_externals example_tableData_edited ?e ?st1 = (js ''10'', ?st1)"
    by (rule conjunct1)
  with first fresh show ?thesis by blast
qed


section \<open>A reference to a table that the index lacks\<close>

lemma getRange_absent:
  "tableData tableName = None \<Longrightarrow>
   getRange ext tableName startCell endCell tableData =
   Some (Inl (Throw Error (js ''Table \"'' @ tableName @ js ''\" not found.'')))"
  by (simp add: getRange_def)

lemma same_cache_same_output:
  assumes "expressionCache st' = expressionCache st"
  shows "fst (evaluateTableExpressions ext content tableData st') =
         fst (evaluateTableExpressions ext content tableData st)"
proof -
  have "grown_from ext tableData st' st"
    using assms refl grown_from_refl by (rule grown_from_cong)
  from sim_scan[OF this, of content] show ?thesis by blast
qed

lemma scan_placeholder_first:
  assumes "e \<noteq> []" "125 \<notin> set e"
  shows "evaluateTableExpressions ext (123 # e @ 125 # rest) tableData st =
     (fst (evaluate_expression ext tableData e st) @
      fst (evaluateTableExpressions ext rest tableData (snd (evaluate_expression ext tableData e st))),
      snd (evaluateTableExpressions ext rest tableData (snd (evaluate_expression ext tableData e st))))"
proof -
  have t: "takeWhile (\<lambda>x. x \<noteq> 125) (e @ 125 # rest) = e"
    using assms(2) by (induction e) auto
  have d: "dropWhile (\<lambda>x. x \<noteq> 125) (e @ 125 # rest) = 125 # rest"
    using assms(2) by (induction e) auto
  have "takeWhile (\<lambda>x. x \<noteq> 125) (e @ 125 # rest) \<noteq> []"
    "dropWhile (\<lambda>x. x \<noteq> 125) (e @ 125 # rest) \<noteq> []"
    unfolding t d using assms(1) by simp_all
  from ete_match[OF this, of ext tableData st] show ?thesis
    unfolding t d by simp
qed

text \<open>
  Claim C4, as amended. When the index has no table of the given name, the range lookup
  raises an \<open>Error\<close> with the message \<open>Table "<name>" not found.\<close> For a placeholder that
  is not in the cache, is no LaTeX and contains \<open>table\<close>, and whose evaluation calls the
  lookup for that table and passes on what it raises, the callback catches the failure:
  the rendering is the error marker, the cache is left as it was, and the rest of the
  document is evaluated to what it would be evaluated to without that placeholder: the
  document that starts with the placeholder is rendered as the marker followed by the
  rendering of the rest.
\<close>

theorem missing_table_error_marker:
  assumes "tableData tableName = None"
    and "expressionCache st e = None"
    and "\<not> (startsWith e (js ''$$'') \<and> endsWith e (js ''$$''))"
    and "includes_js e (js ''table'')"
    and "math_evaluate ext (processTableExpression e tableData)
           (Some (\<lambda>t s f. getRange ext t s f tableData)) =
         (case getRange ext tableName startCell endCell tableData of
            None \<Rightarrow> d
          | Some (Inl err) \<Rightarrow> Inl err
          | Some (Inr vs) \<Rightarrow> k vs)"
  shows "getRange ext tableName startCell endCell tableData =
           Some (Inl (Throw Error (js ''Table \"'' @ tableName @ js ''\" not found.''))) \<and>
         evaluate_expression ext tableData e st =
           (error_marker e, called (MathEvaluate (processTableExpression e tableData)) st) \<and>
         expressionCache (snd (evaluate_expression ext tableData e st)) = expressionCache st \<and>
         fst (evaluateTableExpressions ext content tableData
                (snd (evaluate_expression ext tableData e st))) =
           fst (evaluateTableExpressions ext content tableData st) \<and>
         (e \<noteq> [] \<and> 125 \<notin> set e \<longrightarrow>
            fst (evaluateTableExpressions ext (123 # e @ 125 # content) tableData st) =
              error_marker e @ fst (evaluateTableExpressions ext content tableData st))"
proof -
  have g: "getRange ext tableName startCell endCell tableData =
           Some (Inl (Throw Error (js ''Table \"'' @ tableName @ js ''\" not found.'')))"
    using assms(1) by (rule getRange_absent)
  have m: "math_evaluate ext (processTableExpression e tableData)
           (Some (\<lambda>t s f. getRange ext t s f tableData)) =
           Inl (Throw Error (js ''Table \"'' @ tableName @ js ''\" not found.''))"
    unfolding assms(5) g by simp
  have ev: "evaluate_expression ext tableData e st =
           (error_marker e, called (MathEvaluate (processTableExpression e tableData)) st)"
    unfolding evaluate_expression_table[of st e ext tableData, OF assms(2,3,4)] m by simp
  have c: "expressionCache (snd (evaluate_expression ext tableData e st)) = expressionCache st"
    unfolding ev by simp
  note rest = same_cache_same_output[OF c, of ext content tableData]
  have doc: "fst (evaluateTableExpressions ext (123 # e @ 125 # content) tableData st) =
              error_marker e @ fst (evaluateTableExpressions ext content tableData st)"
    if "e \<noteq> []" "125 \<notin> set e"
    using rest unfolding scan_placeholder_first[OF that] fst_conv ev snd_conv by simp
  from g ev c rest doc show ?thesis
    by blast
qed

theorem missing_table_error_marker_witness:
  "getRange example_externals (js ''table9'') (js ''A1'') (js ''B2'') example_tableData =
     Some (Inl (Throw Error (js ''Table \"table9\" not found.''))) \<and>
   evaluate_expression example_externals example_tableData (js ''sum(table9[A1:B2])'') empty_state =
     (error_marker (js ''sum(table9[A1:B2])''),
      called (MathEvaluate (js ''sum(getRange(\"table9\", \"A1\", \"B2\"))'')) empty_state)"
proof -
  have absent: "example_tableData (js ''table9'') = None"
    by code_simp
  have m: "math_evaluate example_externals
       (processTableExpression (js ''sum(table9[A1:B2])'') example_tableData)
       (Some (\<lambda>t s f. getRange example_externals t s f example_tableData)) =
     (case getRange example_externals (js ''table9'') (js ''A1'') (js ''B2'') example_tableData of
        None \<Rightarrow> Inl (Throw RangeError (js ''no value''))
      | Some (Inl err) \<Rightarrow> Inl err
      | Some (Inr vs) \<Rightarrow> Inr (sum_list (map (\<lambda>v. case v of None \<Rightarrow> 0 | Some n \<Rightarrow> n) vs)))"
    unfolding ex_process_table9 ex_externals_fields ex_evaluate_table9 ..
  have name: "js ''Table \"'' @ js ''table9'' @ js ''\" not found.'' = js ''Table \"table9\" not found.''"
    by (simp add: js_def)
  from missing_table_error_marker[where tableData = example_tableData and tableName = "js ''table9''"
      and st = empty_state and e = "js ''sum(table9[A1:B2])''" and ext = example_externals
      and startCell = "js ''A1''" and endCell = "js ''B2''" and content = "[]",
      OF absent ex_empty_miss ex_not_latex(2) ex_includes_table(2) m]
  show ?thesis
    unfolding ex_process_table9 name by blast
qed

text \<open>
  The claim as stated fails for a placeholder whose text is in the cache: after
  \<open>sum(table9[A1:B2])\<close> was evaluated to 10 while a ninth table existed, the same text is
  rendered as 10, not as an error marker, when the index holds \<open>table1\<close> only.
\<close>

theorem cached_rendering_hides_missing_table:
  "example_tableData (js ''table9'') = None \<and>
   fst (evaluate_expression example_externals example_tableData (js ''sum(table9[A1:B2])'')
          (snd (evaluate_expression example_externals example_tableData9
                  (js ''sum(table9[A1:B2])'') empty_state))) = js ''10'' \<and>
   js ''10'' \<noteq> error_marker (js ''sum(table9[A1:B2])'')"
proof -
  let ?e = "js ''sum(table9[A1:B2])''"
  let ?st1 = "cache_set ?e (js ''10'')
        (called (MathEvaluate (js ''sum(getRange(\"table9\", \"A1\", \"B2\"))'')) empty_state)"
  have absent: "example_tableData (js ''table9'') = None"
    by code_simp
  have first: "evaluate_expression example_externals example_tableData9 ?e empty_state = (js ''10'', ?st1)"
    unfolding ex_sum_table9[OF ex_empty_miss] ex_getRange_table1 by (simp add: ex_numbers)
  have stored: "expressionCache ?st1 ?e = Some (js ''10'')"
    by simp
  have second: "evaluate_expression example_externals example_tableData ?e ?st1 = (js ''10'', ?st1)"
    using stored by (rule evaluate_expression_hit)
  have ne: "js ''10'' \<noteq> error_marker (js ''sum(table9[A1:B2])'')"
    by (simp add: error_marker_def js_def)
  from absent second ne show ?thesis
    unfolding first snd_conv by simp
qed


section \<open>Update events and the registered handlers\<close>

lemma handler_run_current:
  "handler_run ext (editor_html (view_editor v)) v = ([], v)"
  by (simp add: handler_run_def updateContent_same)

lemma first_event_commands:
  "fst (update_event example_externals example_view) =
   [SetContent (js ''<p>12}</p>''), SetTextSelection 5 5]"
  by code_simp

lemma first_event_view:
  "editor_html (view_editor (snd (update_event example_externals example_view))) = js ''<p>12}</p>''"
  "view_previousContent (snd (update_event example_externals example_view)) = js ''<p>12}</p>''"
  "view_handlers (snd (update_event example_externals example_view)) = [[], js ''<p>12}</p>'']"
  by code_simp+

lemma second_event_candidate:
  "fst (evaluateTableExpressions example_externals (js ''<p>12}</p>'')
          (snd (parseTables (dom_tables example_externals) (js ''<p>12}</p>'')))
          (view_eval (snd (update_event example_externals example_view)))) = js ''<p>12}</p>''"
  by code_simp

lemma second_event_commands:
  "fst (update_event example_externals (snd (update_event example_externals example_view))) =
   [SetContent (js ''<p>12}</p>''), SetTextSelection 5 5]"
  by code_simp

text \<open>
  Claim C5. The body of \<open>updateContent\<close> has the guards of the claim: it does nothing when
  the snapshot equals the \<open>previousContent\<close> of its closure, and it replaces the content
  only when the candidate differs from it. The closure of the handler registered first
  keeps the empty string, though, and that handler is never removed. With the document
  \<open><p>{12}}</p>\<close> and the selection (5, 5), the first update event replaces the content by
  \<open><p>12}</p>\<close>, which becomes the last-applied snapshot, and a second handler is
  registered. At the next update event, with no edit in between, the snapshot is the
  last-applied one and so is the candidate, which evaluation leaves as it is; the handler
  registered first compares both with the empty string and calls \<open>setContent\<close> again.
\<close>

theorem stale_handler_replaces_again:
  "fst (update_event example_externals example_view) =
     [SetContent (js ''<p>12}</p>''), SetTextSelection 5 5] \<and>
   editor_html (view_editor (snd (update_event example_externals example_view))) =
     js ''<p>12}</p>'' \<and>
   view_previousContent (snd (update_event example_externals example_view)) = js ''<p>12}</p>'' \<and>
   view_handlers (snd (update_event example_externals example_view)) = [[], js ''<p>12}</p>''] \<and>
   fst (evaluateTableExpressions example_externals (js ''<p>12}</p>'')
          (snd (parseTables (dom_tables example_externals) (js ''<p>12}</p>'')))
          (view_eval (snd (update_event example_externals example_view)))) = js ''<p>12}</p>'' \<and>
   fst (update_event example_externals (snd (update_event example_externals example_view))) =
     [SetContent (js ''<p>12}</p>''), SetTextSelection 5 5]"
  using first_event_commands first_event_view second_event_candidate second_event_commands
  by blast

text \<open>
  Evaluating an evaluated snapshot does not always give the same snapshot either. The
  document \<open>{{a}}\<close> is evaluated to the marker of \<open>{a\<close> followed by a closing brace; in that
  snapshot the text from the opening brace inside the marker to the closing brace is a
  placeholder again, and evaluating the snapshot wraps it into a second marker.
\<close>

lemma reevaluated_snapshot_differs:
  "fst (evaluateTableExpressions example_externals (js ''{{a}}'') example_tableData empty_state) =
     js ''<span style=\"color: red;\">{a</span>}'' \<and>
   fst (evaluateTableExpressions example_externals (js ''<span style=\"color: red;\">{a</span>}'')
          example_tableData
          (snd (evaluateTableExpressions example_externals (js ''{{a}}'') example_tableData
                  empty_state))) =
     js ''<span style=\"color: red;\"><span style=\"color: red;\">a</span></span>'' \<and>
   js ''<span style=\"color: red;\"><span style=\"color: red;\">a</span></span>'' \<noteq>
     js ''<span style=\"color: red;\">{a</span>}''"
  by code_simp

end
